theory Spec2Isabelle
  imports Complex_Main "HOL-Library.Word" "HOL-Library.Sublist"
begin

section \<open>Content moderation client (\<^verbatim>\<open>src/main.py\<close>): data model\<close>

text \<open>
  The program sends a text or an image to two remote endpoints of one client object
  (\<^verbatim>\<open>bedrock_runtime.apply_guardrail\<close>, the moderation service, and
  \<^verbatim>\<open>bedrock_runtime.converse\<close>, the judge model) and records what came back in a
  two-key dictionary. The endpoints and the file system are outside the program: they are
  a parameter of the model (\<open>environment\<close>), and the requests the program has sent so far
  are the state it threads (\<open>calls\<close>).
\<close>

type_synonym byte = "8 word"
type_synonym bytes = "byte list"

text \<open>
  Exceptions as values. \<open>ValueError size limit\<close> is the \<^verbatim>\<open>ValueError\<close> of
  \<^verbatim>\<open>guard_image\<close>, whose message interpolates exactly these two numbers.
  \<open>ServiceError\<close> is whatever a client call raises (\<^verbatim>\<open>ClientError\<close>, a
  connection error, a parameter validation error). \<open>TypeError\<close> is what
  \<^verbatim>\<open>json.dumps\<close> raises on a value that holds bytes. \<open>IndexError\<close> and \<open>KeyError\<close>
  come from subscripting a reply, \<open>IsADirectoryError\<close> from \<^verbatim>\<open>open\<close>.
\<close>

datatype exn =
    ValueError nat nat
  | ServiceError string
  | TypeError
  | IndexError
  | KeyError string
  | IsADirectoryError string

text \<open>
  A content block of a conversation turn: a dictionary with one key. \<open>OtherBlock k b\<close> is
  a block under any other key \<open>k\<close> (a tool use, a document); \<open>b\<close> says whether its value
  holds bytes.
\<close>

datatype content_block =
    TextBlock string
  | ImageBlock string bytes
  | OtherBlock string bool

record message =
  role :: string
  content :: "content_block list"

record inference_config =
  maxTokens :: nat
  topP :: real
  temperature :: real

record converse_request =
  modelId :: "string option"
  messages :: "message list"
  system_texts :: "string list"
  inferenceConfig :: inference_config
  additional_topK :: nat

text \<open>
  The reply of \<^verbatim>\<open>converse\<close>: the code reads only
  \<^verbatim>\<open>['output']['message']['content']\<close>, a list of content blocks.
\<close>

record converse_response =
  output_message_content :: "content_block list"
  stopReason :: string

datatype guardrail_content =
    GuardText string "string list"
  | GuardImage string bytes

record guardrail_request =
  guardrailIdentifier :: "string option"
  guardrailVersion :: "string option"
  request_source :: string
  request_content :: "guardrail_content list"

text \<open>
  The reply of \<^verbatim>\<open>apply_guardrail\<close> is a dictionary; the service puts its verdict
  under the key \<^verbatim>\<open>action\<close> (\<^verbatim>\<open>GUARDRAIL_INTERVENED\<close> or \<^verbatim>\<open>NONE\<close>).
  The code never subscripts it.
\<close>

record apply_guardrail_response =
  action :: string
  outputs :: "string list"

text \<open>
  The values that reach the comparisons \<^verbatim>\<open>== 'GUARDRAIL_INTERVENED'\<close> in
  \<^verbatim>\<open>guard\<close> and \<^verbatim>\<open>handle_image\<close>: a string, or the reply dictionary of the
  moderation service. Python's \<^verbatim>\<open>==\<close> between a dictionary and a string is
  \<^verbatim>\<open>False\<close>; here the two constructors differ.
\<close>

datatype py_value =
    Str string
  | Dict apply_guardrail_response

text \<open>
  The file system: a path names nothing, a regular file with its bytes, or a directory.
  Paths are ASCII strings.
\<close>

datatype fs_node =
    RegularFile bytes
  | Directory

text \<open>
  The environment: the three settings read with \<^verbatim>\<open>os.getenv\<close> at import time
  (each may be absent), the two endpoints and the file system. An endpoint answers a
  request by returning a reply or by raising; its answer may depend on every request it
  has received, so it is a function of the list of requests up to and including the
  current one.
\<close>

record environment =
  guardrail_identifier :: "string option"
  guardrail_version :: "string option"
  MODEL_ID :: "string option"
  apply_guardrail :: "guardrail_request list \<Rightarrow> exn + apply_guardrail_response"
  converse :: "converse_request list \<Rightarrow> exn + converse_response"
  files :: "string \<rightharpoonup> fs_node"

record calls =
  guardrail_calls :: "guardrail_request list"
  converse_calls :: "converse_request list"

type_synonym decision = "string \<rightharpoonup> string"

section \<open>The moderation service client\<close>

definition MAX_IMAGE_SIZE :: nat where
  "MAX_IMAGE_SIZE = 4 * 1024 * 1024"

text \<open>One call of \<^verbatim>\<open>bedrock_runtime.apply_guardrail\<close>: the request is sent, then answered.\<close>

definition call_apply_guardrail ::
  "environment \<Rightarrow> guardrail_request \<Rightarrow> calls \<Rightarrow> (exn + apply_guardrail_response) \<times> calls" where
  "call_apply_guardrail env req st =
     (let st' = st\<lparr>guardrail_calls := guardrail_calls st @ [req]\<rparr>
      in (apply_guardrail env (guardrail_calls st'), st'))"

definition guard_text :: "environment \<Rightarrow> string \<Rightarrow> calls \<Rightarrow> (exn + py_value) \<times> calls" where
  "guard_text env guard_content st =
     (case call_apply_guardrail env
             \<lparr>guardrailIdentifier = guardrail_identifier env,
              guardrailVersion = guardrail_version env,
              request_source = ''INPUT'',
              request_content = [GuardText guard_content [''guard_content'']]\<rparr> st of
        (Inl e, st') \<Rightarrow> (Inl e, st')
      | (Inr response, st') \<Rightarrow> (Inr (Dict response), st'))"

definition guard_image :: "environment \<Rightarrow> bytes \<Rightarrow> string \<Rightarrow> calls \<Rightarrow> (exn + py_value) \<times> calls" where
  "guard_image env guard_blob img_format st =
     (let image_size = length guard_blob
      in if image_size > MAX_IMAGE_SIZE then (Inl (ValueError image_size MAX_IMAGE_SIZE), st)
         else (case call_apply_guardrail env
                      \<lparr>guardrailIdentifier = guardrail_identifier env,
                       guardrailVersion = guardrail_version env,
                       request_source = ''INPUT'',
                       request_content = [GuardImage img_format guard_blob]\<rparr> st of
                 (Inl e, st') \<Rightarrow> (Inl e, st')
               | (Inr response, st') \<Rightarrow> (Inr (Dict response), st')))"

section \<open>The judge model client\<close>

definition SYSTEM_PROMPT :: string where
  "SYSTEM_PROMPT = concat [
     '';; You are a Guardrails judge, making judgements based on the given functions\<newline>'',
     '';; First, define our main guardrailing check function.\<newline>'',
     '';; It strictly returns only \"GUARDRAIL_INTERVENED\" or \"NONE\".\<newline>'',
     ''(defun guardrail-check (content)\<newline>'',
     ''  \"Evaluate CONTENT against guardrailing rules, returning only:\<newline>'',
     ''   - \"GUARDRAIL_INTERVENED\" if any rule is violated,\<newline>'',
     ''   - \"NONE\" otherwise.\<newline>'',
     ''   No other values are returned.\"\<newline>'',
     ''  (cond\<newline>'',
     ''    ;; Hate speech or discrimination\<newline>'',
     ''    ((hate-speech-or-discrimination-p content)\<newline>'',
     ''     \"GUARDRAIL_INTERVENED\")\<newline>'',
     ''\<newline>'',
     ''    ;; Explicit sexual content\<newline>'',
     ''    ((explicit-sexual-content-p content)\<newline>'',
     ''     \"GUARDRAIL_INTERVENED\")\<newline>'',
     ''\<newline>'',
     ''    ;; Illegal activities\<newline>'',
     ''    ((illegal-activities-p content)\<newline>'',
     ''     \"GUARDRAIL_INTERVENED\")\<newline>'',
     ''\<newline>'',
     ''    ;; Violence or gore\<newline>'',
     ''    ((violence-or-gore-p content)\<newline>'',
     ''     \"GUARDRAIL_INTERVENED\")\<newline>'',
     ''\<newline>'',
     ''    ;; Misinformation or conspiracy theories\<newline>'',
     ''    ((misinformation-or-conspiracy-p content)\<newline>'',
     ''     \"GUARDRAIL_INTERVENED\")\<newline>'',
     ''\<newline>'',
     ''    ;; Harassment or bullying\<newline>'',
     ''    ((harassment-or-bullying-p content)\<newline>'',
     ''     \"GUARDRAIL_INTERVENED\")\<newline>'',
     ''\<newline>'',
     ''    ;; Sensitive personal information\<newline>'',
     ''    ((sensitive-personal-info-p content)\<newline>'',
     ''     \"GUARDRAIL_INTERVENED\")\<newline>'',
     ''\<newline>'',
     ''    ;; Spam or commercial content\<newline>'',
     ''    ((spam-or-commercial-content-p content)\<newline>'',
     ''     \"GUARDRAIL_INTERVENED\")\<newline>'',
     ''\<newline>'',
     ''    ;; Impersonation\<newline>'',
     ''    ((impersonation-p content)\<newline>'',
     ''     \"GUARDRAIL_INTERVENED\")\<newline>'',
     ''\<newline>'',
     ''    ;; Intellectual property infringement\<newline>'',
     ''    ((intellectual-property-infringement-p content)\<newline>'',
     ''     \"GUARDRAIL_INTERVENED\")\<newline>'',
     ''\<newline>'',
     ''    ;; If none of the rules are violated:\<newline>'',
     ''    (t \"NONE\")))\<newline>'',
     ''\<newline>'',
     '';; Next, define a function that repeats guardrail-check until\<newline>'',
     '';; we get either \"GUARDRAIL_INTERVENED\" or \"NONE\".\<newline>'',
     ''(defun guardrail-check-with-loop (content)\<newline>'',
     ''  \"Repeatedly call `guardrail-check` on CONTENT until the result\<newline>'',
     ''   is either \"GUARDRAIL_INTERVENED\" or \"NONE\". Returns the result.\"\<newline>'',
     ''  (loop\<newline>'',
     ''     with result = (guardrail-check content)\<newline>'',
     ''     while (not (or (string= result \"GUARDRAIL_INTERVENED\")\<newline>'',
     ''                    (string= result \"NONE\")))\<newline>'',
     ''     do (setf result (guardrail-check content))\<newline>'',
     ''     finally (return result)))'']"

definition inf_params :: inference_config where
  "inf_params = \<lparr>maxTokens = 300, topP = 1.0, temperature = 0.0\<rparr>"

definition nova_text_messages :: "string \<Rightarrow> message list" where
  "nova_text_messages guard_content =
     [\<lparr>role = ''user'',
       content = [TextBlock
         (''In your answer, include only GUARDRAIL_INTERVENED or NONE in plain text. '' @
          ''Do not include any other character.\<newline>'' @
          ''content= \"'' @ guard_content @ ''\"\<newline>'' @
          '' (guardrail-check-with-loop content)'')]\<rparr>]"

definition nova_image_messages :: "bytes \<Rightarrow> string \<Rightarrow> message list" where
  "nova_image_messages guard_blob img_format =
     [\<lparr>role = ''user'',
       content = [TextBlock
         (''In your answer, include only GUARDRAIL_INTERVENED or NONE in plain text. '' @
          ''Do not include any other character.\<newline>'' @
          ''content= image\<newline>'' @
          ''(guardrail-check-with-loop content)''),
         ImageBlock ''jpeg'' guard_blob]\<rparr>]"

text \<open>The keyword arguments of the \<^verbatim>\<open>converse\<close> call, the same in both judge functions.\<close>

definition converse_args :: "environment \<Rightarrow> message list \<Rightarrow> converse_request" where
  "converse_args env msgs =
     \<lparr>modelId = MODEL_ID env, messages = msgs, system_texts = [SYSTEM_PROMPT],
      inferenceConfig = inf_params, additional_topK = 1\<rparr>"

text \<open>
  What the body of the \<^verbatim>\<open>try\<close> makes of the outcome of the call, up to the
  assignment of \<^verbatim>\<open>result_text\<close>. The call may raise. Then
  \<^verbatim>\<open>json.dumps(model_response, indent=2)\<close> is evaluated (line 186; it is the argument
  of \<^verbatim>\<open>logging.debug\<close>, so it runs whatever the logging level) and raises
  \<^verbatim>\<open>TypeError\<close> when the reply holds bytes. Then
  \<^verbatim>\<open>model_response['output']['message']['content'][0]['text']\<close> (line 189): the list
  may be empty, the first block may have no key \<^verbatim>\<open>text\<close>. Each of these exceptions
  is caught by \<^verbatim>\<open>except Exception\<close> and raised again.
\<close>

fun holds_bytes :: "content_block \<Rightarrow> bool" where
  "holds_bytes (TextBlock t) = False"
| "holds_bytes (ImageBlock f bs) = True"
| "holds_bytes (OtherBlock k b) = b"

definition result_text :: "exn + converse_response \<Rightarrow> exn + string" where
  "result_text reply =
     (case reply of
        Inl e \<Rightarrow> Inl e
      | Inr model_response \<Rightarrow>
          if list_ex holds_bytes (output_message_content model_response) then Inl TypeError
          else (case output_message_content model_response of
                  [] \<Rightarrow> Inl IndexError
                | TextBlock t # _ \<Rightarrow> Inr t
                | _ # _ \<Rightarrow> Inl (KeyError ''text'')))"

text \<open>
  The \<^verbatim>\<open>while True\<close> loop of \<^verbatim>\<open>guard_nova_text\<close> (lines 175 to 204), which
  \<^verbatim>\<open>guard_nova_image\<close> repeats word for word (lines 243 to 272). The loop has no
  bound, so the function is partial: \<open>None\<close> is the run that never returns.
\<close>

partial_function (option) converse_until_valid ::
  "environment \<Rightarrow> converse_request \<Rightarrow> calls \<Rightarrow> ((exn + string) \<times> calls) option" where
  "converse_until_valid env req st =
     (let st' = st\<lparr>converse_calls := converse_calls st @ [req]\<rparr>
      in case result_text (converse env (converse_calls st')) of
           Inl e \<Rightarrow> Some (Inl e, st')
         | Inr t \<Rightarrow>
             if t \<in> set [''GUARDRAIL_INTERVENED'', ''NONE''] then Some (Inr t, st')
             else converse_until_valid env req st')"

definition guard_nova_text ::
  "environment \<Rightarrow> string \<Rightarrow> calls \<Rightarrow> ((exn + string) \<times> calls) option" where
  "guard_nova_text env guard_content st =
     converse_until_valid env (converse_args env (nova_text_messages guard_content)) st"

definition guard_nova_image ::
  "environment \<Rightarrow> bytes \<Rightarrow> string \<Rightarrow> calls \<Rightarrow> ((exn + string) \<times> calls) option" where
  "guard_nova_image env guard_blob img_format st =
     converse_until_valid env (converse_args env (nova_image_messages guard_blob img_format)) st"

section \<open>The input handler and the aggregator\<close>

text \<open>Python's \<^verbatim>\<open>str.lower\<close> on ASCII text and \<^verbatim>\<open>sub in s\<close> on strings.\<close>

definition lower_char :: "char \<Rightarrow> char" where
  "lower_char c =
     (case map_of (zip ''ABCDEFGHIJKLMNOPQRSTUVWXYZ'' ''abcdefghijklmnopqrstuvwxyz'') c of
        None \<Rightarrow> c
      | Some l \<Rightarrow> l)"

definition lower :: "string \<Rightarrow> string" where
  "lower s = map lower_char s"

fun str_in :: "string \<Rightarrow> string \<Rightarrow> bool" where
  "str_in sub [] = (sub = [])"
| "str_in sub (c # cs) = (prefix sub (c # cs) \<or> str_in sub cs)"

text \<open>\<^verbatim>\<open>open(img_path, 'rb')\<close> and \<^verbatim>\<open>f.read()\<close> on a path that exists.\<close>

definition read_file :: "string \<Rightarrow> fs_node \<Rightarrow> exn + bytes" where
  "read_file img_path node =
     (case node of RegularFile img_blob \<Rightarrow> Inr img_blob | Directory \<Rightarrow> Inl (IsADirectoryError img_path))"

text \<open>
  \<open>image_ext\<close> is the expression assigned to \<^verbatim>\<open>ext\<close> (lines 285 to 289).
  \<^verbatim>\<open>handle_image\<close> updates the caller's dictionary in place and returns nothing;
  the model returns the dictionary. When it raises, the caller \<^verbatim>\<open>guard\<close> does not
  return, so no dictionary is passed on.
\<close>

definition image_ext :: "string \<Rightarrow> string option" where
  "image_ext img_path =
     (if str_in ''jpg'' (lower img_path) \<or> str_in ''jpeg'' (lower img_path) then Some ''jpeg''
      else if str_in ''png'' (lower img_path) then Some ''png''
      else None)"

definition handle_image ::
  "environment \<Rightarrow> decision \<Rightarrow> string \<Rightarrow> calls \<Rightarrow> ((exn + decision) \<times> calls) option" where
  "handle_image env decision img_path st =
     (case files env img_path of
        None \<Rightarrow> Some (Inr decision, st)
      | Some node \<Rightarrow>
          (case read_file img_path node of
             Inl e \<Rightarrow> Some (Inl e, st)
           | Inr img_blob \<Rightarrow>
               (case image_ext img_path of
                  None \<Rightarrow> Some (Inr decision, st)
                | Some ext \<Rightarrow>
                    (case guard_image env img_blob ext st of
                       (Inl e, st1) \<Rightarrow> Some (Inl e, st1)
                     | (Inr img_result, st1) \<Rightarrow>
                         (let decision1 =
                                (if img_result = Str ''GUARDRAIL_INTERVENED''
                                 then decision(''guardrails'' \<mapsto> ''GUARDRAIL_INTERVENED'')
                                 else decision)
                          in case guard_nova_image env img_blob ext st1 of
                               None \<Rightarrow> None
                             | Some (Inl e, st2) \<Rightarrow> Some (Inl e, st2)
                             | Some (Inr nova_img_result, st2) \<Rightarrow>
                                 Some (Inr (if nova_img_result = ''GUARDRAIL_INTERVENED''
                                            then decision1(''nova'' \<mapsto> ''GUARDRAIL_INTERVENED'')
                                            else decision1), st2))))))"

text \<open>Step 1 of \<^verbatim>\<open>guard\<close>, the block under \<^verbatim>\<open>if guard_content is not None\<close>.\<close>

definition check_text ::
  "environment \<Rightarrow> decision \<Rightarrow> string \<Rightarrow> calls \<Rightarrow> ((exn + decision) \<times> calls) option" where
  "check_text env decision guard_content st =
     (case guard_text env guard_content st of
        (Inl e, st1) \<Rightarrow> Some (Inl e, st1)
      | (Inr text_result, st1) \<Rightarrow>
          (let decision1 =
                 (if text_result = Str ''GUARDRAIL_INTERVENED''
                  then decision(''guardrails'' \<mapsto> ''GUARDRAIL_INTERVENED'')
                  else decision)
           in case guard_nova_text env guard_content st1 of
                None \<Rightarrow> None
              | Some (Inl e, st2) \<Rightarrow> Some (Inl e, st2)
              | Some (Inr nova_text_result, st2) \<Rightarrow>
                  Some (Inr (if nova_text_result = ''GUARDRAIL_INTERVENED''
                             then decision1(''nova'' \<mapsto> ''GUARDRAIL_INTERVENED'')
                             else decision1), st2)))"

definition guard ::
  "environment \<Rightarrow> string option \<Rightarrow> string option \<Rightarrow> calls \<Rightarrow> ((exn + decision) \<times> calls) option" where
  "guard env guard_content img_path st =
     (let decision = [''guardrails'' \<mapsto> ''NONE'', ''nova'' \<mapsto> ''NONE'']
      in case (case guard_content of
                 None \<Rightarrow> Some (Inr decision, st)
               | Some text \<Rightarrow> check_text env decision text st) of
           None \<Rightarrow> None
         | Some (Inl e, st1) \<Rightarrow> Some (Inl e, st1)
         | Some (Inr decision1, st1) \<Rightarrow>
             (case img_path of
                None \<Rightarrow> Some (Inr decision1, st1)
              | Some path \<Rightarrow> handle_image env decision1 path st1))"

section \<open>Vocabulary of the properties\<close>

text \<open>
  \<open>sent st n req\<close> is the state after \<open>n\<close> more calls of \<^verbatim>\<open>converse\<close> with the
  request \<open>req\<close>; \<open>nth_reply env req st n\<close> is what the \<open>n\<close>-th of these calls gives the
  loop (attempts are counted from 1): the exception to raise again, or the first text
  segment of the reply. It is \<open>Inr t\<close> exactly when the call returned a reply that holds
  no bytes and whose first content block is the text segment \<open>t\<close>. A reply is \<open>rejected\<close>
  when it is \<open>Inr t\<close> with \<open>t\<close> neither of the two tokens: the loop then goes round again.
\<close>

definition sent :: "calls \<Rightarrow> nat \<Rightarrow> converse_request \<Rightarrow> calls" where
  "sent st n req = st\<lparr>converse_calls := converse_calls st @ replicate n req\<rparr>"

definition nth_reply :: "environment \<Rightarrow> converse_request \<Rightarrow> calls \<Rightarrow> nat \<Rightarrow> exn + string" where
  "nth_reply env req st n = result_text (converse env (converse_calls (sent st n req)))"

definition accepted :: "string \<Rightarrow> bool" where
  "accepted t = (t \<in> set [''GUARDRAIL_INTERVENED'', ''NONE''])"

definition rejected :: "exn + string \<Rightarrow> bool" where
  "rejected r = (case r of Inl e \<Rightarrow> False | Inr t \<Rightarrow> \<not> accepted t)"

text \<open>The requests the four client functions build.\<close>

definition text_request :: "environment \<Rightarrow> string \<Rightarrow> converse_request" where
  "text_request env guard_content = converse_args env (nova_text_messages guard_content)"

definition image_request :: "environment \<Rightarrow> bytes \<Rightarrow> string \<Rightarrow> converse_request" where
  "image_request env guard_blob img_format = converse_args env (nova_image_messages guard_blob img_format)"

definition moderation_text_request :: "environment \<Rightarrow> string \<Rightarrow> guardrail_request" where
  "moderation_text_request env guard_content =
     \<lparr>guardrailIdentifier = guardrail_identifier env, guardrailVersion = guardrail_version env,
      request_source = ''INPUT'', request_content = [GuardText guard_content [''guard_content'']]\<rparr>"

definition moderation_image_request :: "environment \<Rightarrow> bytes \<Rightarrow> string \<Rightarrow> guardrail_request" where
  "moderation_image_request env guard_blob img_format =
     \<lparr>guardrailIdentifier = guardrail_identifier env, guardrailVersion = guardrail_version env,
      request_source = ''INPUT'', request_content = [GuardImage img_format guard_blob]\<rparr>"

definition image_formats :: "converse_request \<Rightarrow> string list" where
  "image_formats req =
     concat (map (\<lambda>m. concat (map (\<lambda>b. case b of ImageBlock f bs \<Rightarrow> [f] | _ \<Rightarrow> []) (content m)))
               (messages req))"

definition default_decision :: decision where
  "default_decision = [''guardrails'' \<mapsto> ''NONE'', ''nova'' \<mapsto> ''NONE'']"

section \<open>Stubbed endpoints\<close>

text \<open>
  Endpoints with scripted answers, as a test double of the client object would give them,
  for running the functions on concrete inputs.
\<close>

definition stub ::
  "(guardrail_request list \<Rightarrow> exn + apply_guardrail_response) \<Rightarrow>
   (converse_request list \<Rightarrow> exn + converse_response) \<Rightarrow> (string \<rightharpoonup> fs_node) \<Rightarrow> environment" where
  "stub moderation judge fs =
     \<lparr>guardrail_identifier = Some ''guardrail-1'', guardrail_version = Some ''1'',
      MODEL_ID = Some ''judge-model'', apply_guardrail = moderation, converse = judge, files = fs\<rparr>"

definition no_calls :: calls where
  "no_calls = \<lparr>guardrail_calls = [], converse_calls = []\<rparr>"

definition says :: "string \<Rightarrow> exn + converse_response" where
  "says t = Inr \<lparr>output_message_content = [TextBlock t], stopReason = ''end_turn''\<rparr>"

definition verdict :: "string \<Rightarrow> exn + apply_guardrail_response" where
  "verdict a = Inr \<lparr>action = a, outputs = []\<rparr>"

definition service_says :: "string \<Rightarrow> guardrail_request list \<Rightarrow> exn + apply_guardrail_response" where
  "service_says a reqs = verdict a"

definition judge_says :: "string \<Rightarrow> converse_request list \<Rightarrow> exn + converse_response" where
  "judge_says t reqs = says t"

definition judge_raises :: "exn \<Rightarrow> converse_request list \<Rightarrow> exn + converse_response" where
  "judge_raises e reqs = Inl e"

definition judge_replies :: "content_block list \<Rightarrow> converse_request list \<Rightarrow> exn + converse_response" where
  "judge_replies blocks reqs = Inr \<lparr>output_message_content = blocks, stopReason = ''end_turn''\<rparr>"

definition maybe_with_image_then_none :: "converse_request list \<Rightarrow> exn + converse_response" where
  "maybe_with_image_then_none reqs =
     (if length reqs = 1
      then Inr \<lparr>output_message_content = [TextBlock ''maybe?'', ImageBlock ''png'' [137, 80, 78, 71]],
                stopReason = ''end_turn''\<rparr>
      else says ''NONE'')"

definition maybe_then_none :: "converse_request list \<Rightarrow> exn + converse_response" where
  "maybe_then_none reqs = (if length reqs = 1 then says ''maybe?'' else says ''NONE'')"

definition never_valid :: "converse_request list \<Rightarrow> exn + converse_response" where
  "never_valid = judge_says ''maybe?''"

definition one_directory :: "string \<rightharpoonup> fs_node" where
  "one_directory = [''/tmp'' \<mapsto> Directory]"

definition two_files :: "string \<rightharpoonup> fs_node" where
  "two_files = [''chart.svg'' \<mapsto> RegularFile [60, 115, 118, 103, 47, 62],
                ''chart.png'' \<mapsto> RegularFile [137, 80, 78, 71]]"

definition big_file :: "string \<rightharpoonup> fs_node" where
  "big_file = [''big.png'' \<mapsto> RegularFile (replicate 4194305 0)]"

definition intervened_then_none :: "converse_request list \<Rightarrow> exn + converse_response" where
  "intervened_then_none reqs =
     (if length reqs = 1 then says ''GUARDRAIL_INTERVENED'' else says ''NONE'')"

section \<open>The retry loop\<close>

lemma sent_0 [simp]: "sent st 0 req = st"
  by (simp add: sent_def)

lemma sent_sent_1: "sent (sent st (Suc 0) req) n req = sent st (Suc n) req"
  by (simp add: sent_def)

lemma nth_reply_shift: "nth_reply env req (sent st (Suc 0) req) n = nth_reply env req st (Suc n)"
  by (simp add: nth_reply_def sent_sent_1)

lemma loop_step:
  "converse_until_valid env req st =
     (case nth_reply env req st (Suc 0) of
        Inl e \<Rightarrow> Some (Inl e, sent st (Suc 0) req)
      | Inr t \<Rightarrow> if accepted t then Some (Inr t, sent st (Suc 0) req)
                 else converse_until_valid env req (sent st (Suc 0) req))"
  by (subst converse_until_valid.simps)
     (simp add: Let_def nth_reply_def sent_def accepted_def split: sum.splits)

lemma loop_accept:
  "nth_reply env req st (Suc 0) = Inr t \<Longrightarrow> accepted t \<Longrightarrow>
   converse_until_valid env req st = Some (Inr t, sent st (Suc 0) req)"
  by (subst loop_step) simp

lemma loop_raise:
  "nth_reply env req st (Suc 0) = Inl e \<Longrightarrow>
   converse_until_valid env req st = Some (Inl e, sent st (Suc 0) req)"
  by (subst loop_step) simp

lemma loop_retry:
  "nth_reply env req st (Suc 0) = Inr t \<Longrightarrow> \<not> accepted t \<Longrightarrow>
   converse_until_valid env req st = converse_until_valid env req (sent st (Suc 0) req)"
  by (subst loop_step) simp

lemma loop_skip:
  "(\<And>k. 0 < k \<Longrightarrow> k \<le> m \<Longrightarrow> rejected (nth_reply env req st k)) \<Longrightarrow>
   converse_until_valid env req st = converse_until_valid env req (sent st m req)"
proof (induction m arbitrary: st)
  case 0
  show ?case by simp
next
  case (Suc m)
  have first: "rejected (nth_reply env req st (Suc 0))"
    using Suc.prems [of "Suc 0"] by simp
  have rest: "\<And>k. 0 < k \<Longrightarrow> k \<le> m \<Longrightarrow> rejected (nth_reply env req (sent st (Suc 0) req) k)"
    using Suc.prems by (simp add: nth_reply_shift)
  have "converse_until_valid env req st = converse_until_valid env req (sent st (Suc 0) req)"
    using first by (subst loop_step) (simp add: rejected_def split: sum.splits)
  also have "\<dots> = converse_until_valid env req (sent (sent st (Suc 0) req) m req)"
    using rest by (rule Suc.IH)
  finally show ?case by (simp add: sent_sent_1)
qed

lemma loop_returns:
  assumes "converse_until_valid env req st = Some (r, st')"
  shows "\<exists>n. st' = sent st (Suc n) req \<and> nth_reply env req st (Suc n) = r \<and> \<not> rejected r \<and>
             (\<forall>k. 0 < k \<and> k \<le> n \<longrightarrow> rejected (nth_reply env req st k))"
proof -
  have "\<exists>n. snd y = sent st (Suc n) req \<and> nth_reply env req st (Suc n) = fst y \<and> \<not> rejected (fst y) \<and>
             (\<forall>k. 0 < k \<and> k \<le> n \<longrightarrow> rejected (nth_reply env req st k))"
    if "converse_until_valid env req st = Some y" for y
  proof (rule converse_until_valid.raw_induct [OF _ that], goal_cases)
    case (1 loop env req st y)
    let ?st1 = "sent st (Suc 0) req"
    show ?case
    proof (cases "rejected (nth_reply env req st (Suc 0))")
      case False
      then have "y = (nth_reply env req st (Suc 0), ?st1)"
        using 1(2) by (auto simp: Let_def nth_reply_def sent_def rejected_def accepted_def split: sum.splits if_splits)
      then have "snd y = sent st (Suc 0) req \<and> nth_reply env req st (Suc 0) = fst y \<and> \<not> rejected (fst y) \<and>
             (\<forall>k. 0 < k \<and> k \<le> 0 \<longrightarrow> rejected (nth_reply env req st k))"
        using False by simp
      then show ?thesis by blast
    next
      case True
      then have "loop env req ?st1 = Some y"
        using 1(2) by (auto simp: Let_def nth_reply_def sent_def rejected_def accepted_def split: sum.splits if_splits)
      from 1(1) [OF this] obtain n where n:
        "snd y = sent ?st1 (Suc n) req" "nth_reply env req ?st1 (Suc n) = fst y" "\<not> rejected (fst y)"
        "\<forall>k. 0 < k \<and> k \<le> n \<longrightarrow> rejected (nth_reply env req ?st1 k)"
        by blast
      have "\<forall>k. 0 < k \<and> k \<le> Suc n \<longrightarrow> rejected (nth_reply env req st k)"
      proof (intro allI impI)
        fix k assume k: "0 < k \<and> k \<le> Suc n"
        show "rejected (nth_reply env req st k)"
        proof (cases k)
          case 0 with k show ?thesis by simp
        next
          case (Suc j)
          show ?thesis
          proof (cases j)
            case 0 with Suc True show ?thesis by simp
          next
            case (Suc i)
            with \<open>k = Suc j\<close> k n(4) have "rejected (nth_reply env req ?st1 j)" by simp
            then show ?thesis using \<open>k = Suc j\<close> by (simp add: nth_reply_shift)
          qed
        qed
      qed
      with n(1-3) have "snd y = sent st (Suc (Suc n)) req \<and> nth_reply env req st (Suc (Suc n)) = fst y \<and>
          \<not> rejected (fst y) \<and> (\<forall>k. 0 < k \<and> k \<le> Suc n \<longrightarrow> rejected (nth_reply env req st k))"
        by (simp add: nth_reply_shift sent_sent_1)
      then show ?thesis by blast
    qed
  qed
  from this [OF assms] show ?thesis by simp
qed

lemma loop_diverges:
  assumes "\<And>k. 0 < k \<Longrightarrow> rejected (nth_reply env req st k)"
  shows "converse_until_valid env req st = None"
proof (cases "converse_until_valid env req st")
  case None then show ?thesis .
next
  case (Some y)
  obtain r st' where "y = (r, st')" by (cases y)
  with Some loop_returns obtain n where "nth_reply env req st (Suc n) = r" "\<not> rejected r"
    by blast
  with assms [of "Suc n"] show ?thesis by simp
qed

lemma nth_reply_1:
  "nth_reply env req st (Suc 0) = result_text (converse env (converse_calls st @ [req]))"
  by (simp add: nth_reply_def sent_def)

lemma nth_reply_2:
  "nth_reply env req st (Suc (Suc 0)) = result_text (converse env (converse_calls st @ [req, req]))"
  by (simp add: nth_reply_def sent_def)

lemma result_text_first:
  "reply = Inr resp \<Longrightarrow> output_message_content resp = TextBlock t # rest \<Longrightarrow>
   \<not> list_ex holds_bytes (output_message_content resp) \<Longrightarrow> result_text reply = Inr t"
  by (simp add: result_text_def)

lemma result_text_Inr:
  "result_text reply = Inr t \<longleftrightarrow>
     (\<exists>resp rest. reply = Inr resp \<and> output_message_content resp = TextBlock t # rest \<and>
        \<not> list_ex holds_bytes (output_message_content resp))"
  by (auto simp: result_text_def split: sum.splits list.splits content_block.splits if_splits)

lemma result_text_ValueError:
  "result_text reply = Inl (ValueError a b) \<Longrightarrow> reply = Inl (ValueError a b)"
  by (auto simp: result_text_def split: sum.splits list.splits content_block.splits if_splits)

lemma loop_value:
  "converse_until_valid env req st = Some (Inr t, st') \<Longrightarrow> accepted t"
  by (drule loop_returns) (auto simp: rejected_def)

lemma loop_returns_at:
  assumes "0 < n" "nth_reply env req st n = Inr t" "accepted t"
    "\<And>k. 0 < k \<Longrightarrow> k < n \<Longrightarrow> rejected (nth_reply env req st k)"
  shows "converse_until_valid env req st = Some (Inr t, sent st n req)"
proof -
  from assms(1) obtain m where n: "n = Suc m" by (cases n) auto
  have "\<And>k. 0 < k \<Longrightarrow> k \<le> m \<Longrightarrow> rejected (nth_reply env req st k)"
    using assms(4) n by simp
  then have "converse_until_valid env req st = converse_until_valid env req (sent st m req)"
    by (rule loop_skip)
  also have "\<dots> = Some (Inr t, sent (sent st m req) (Suc 0) req)"
  proof (rule loop_accept)
    show "nth_reply env req (sent st m req) (Suc 0) = Inr t"
      using assms(2) n by (simp add: nth_reply_def sent_def replicate_append_same)
  qed (rule assms(3))
  finally show ?thesis using n by (simp add: sent_def replicate_append_same)
qed

section \<open>The client functions, step by step\<close>

lemma guard_text_eq:
  "guard_text env c st =
     (map_sum id Dict (apply_guardrail env (guardrail_calls st @ [moderation_text_request env c])),
      st\<lparr>guardrail_calls := guardrail_calls st @ [moderation_text_request env c]\<rparr>)"
  by (simp add: guard_text_def call_apply_guardrail_def moderation_text_request_def Let_def
           split: sum.splits)

lemma guard_image_eq:
  "guard_image env b f st =
     (if length b > MAX_IMAGE_SIZE then (Inl (ValueError (length b) MAX_IMAGE_SIZE), st)
      else (map_sum id Dict (apply_guardrail env (guardrail_calls st @ [moderation_image_request env b f])),
            st\<lparr>guardrail_calls := guardrail_calls st @ [moderation_image_request env b f]\<rparr>))"
  by (simp add: guard_image_def call_apply_guardrail_def moderation_image_request_def Let_def
           split: sum.splits)

lemma check_text_returns:
  assumes "apply_guardrail env (guardrail_calls st @ [moderation_text_request env c]) = Inr r"
  shows "check_text env d c st =
     (case guard_nova_text env c
             (st\<lparr>guardrail_calls := guardrail_calls st @ [moderation_text_request env c]\<rparr>) of
        None \<Rightarrow> None
      | Some (Inl e, st2) \<Rightarrow> Some (Inl e, st2)
      | Some (Inr t, st2) \<Rightarrow>
          Some (Inr (if t = ''GUARDRAIL_INTERVENED'' then d(''nova'' \<mapsto> ''GUARDRAIL_INTERVENED'') else d),
                st2))"
  using assms by (simp add: check_text_def guard_text_eq)

lemma check_text_raises:
  assumes "apply_guardrail env (guardrail_calls st @ [moderation_text_request env c]) = Inl e"
  shows "check_text env d c st =
     Some (Inl e, st\<lparr>guardrail_calls := guardrail_calls st @ [moderation_text_request env c]\<rparr>)"
  using assms by (simp add: check_text_def guard_text_eq)

lemma guard_nova_image_accepts:
  assumes "converse env (converse_calls st @ [image_request env b f]) = Inr reply"
    "output_message_content reply = TextBlock t # rest"
    "t = ''GUARDRAIL_INTERVENED'' \<or> t = ''NONE''"
    "\<not> list_ex holds_bytes (output_message_content reply)"
  shows "guard_nova_image env b f st = Some (Inr t, sent st (Suc 0) (image_request env b f))"
proof -
  have "nth_reply env (image_request env b f) st (Suc 0) = Inr t"
    using assms(1,2,4) by (simp add: nth_reply_1 result_text_first)
  moreover have "accepted t"
    using assms(3) by (auto simp: accepted_def)
  ultimately have "converse_until_valid env (image_request env b f) st =
      Some (Inr t, sent st (Suc 0) (image_request env b f))"
    by (rule loop_accept)
  then show ?thesis by (simp add: guard_nova_image_def image_request_def)
qed

lemma guard_nova_text_raises:
  assumes "result_text (converse env (converse_calls st @ [text_request env c])) = Inl e"
  shows "guard_nova_text env c st =
     Some (Inl e, st\<lparr>converse_calls := converse_calls st @ [text_request env c]\<rparr>)"
proof -
  have "nth_reply env (text_request env c) st (Suc 0) = Inl e"
    using assms by (simp add: nth_reply_1)
  then have "converse_until_valid env (text_request env c) st =
      Some (Inl e, sent st (Suc 0) (text_request env c))"
    by (rule loop_raise)
  then show ?thesis by (simp add: guard_nova_text_def text_request_def sent_def)
qed

lemma guard_nova_text_accepts:
  assumes "converse env (converse_calls st @ [text_request env c]) = Inr reply"
    "output_message_content reply = TextBlock t # rest"
    "t = ''GUARDRAIL_INTERVENED'' \<or> t = ''NONE''"
    "\<not> list_ex holds_bytes (output_message_content reply)"
  shows "guard_nova_text env c st = Some (Inr t, sent st (Suc 0) (text_request env c))"
proof -
  have "nth_reply env (text_request env c) st (Suc 0) = Inr t"
    using assms(1,2,4) by (simp add: nth_reply_1 result_text_first)
  moreover have "accepted t"
    using assms(3) by (auto simp: accepted_def)
  ultimately have "converse_until_valid env (text_request env c) st =
      Some (Inr t, sent st (Suc 0) (text_request env c))"
    by (rule loop_accept)
  then show ?thesis by (simp add: guard_nova_text_def text_request_def)
qed

lemma image_ext_chart_png: "image_ext ''chart.png'' = Some ''png''"
  by (simp add: image_ext_def lower_def lower_char_def)

lemma image_ext_big_png: "image_ext ''big.png'' = Some ''png''"
  by (simp add: image_ext_def lower_def lower_char_def)

lemma handle_image_missing:
  "files env p = None \<Longrightarrow> handle_image env d p st = Some (Inr d, st)"
  by (simp add: handle_image_def)

lemma handle_image_directory:
  "files env p = Some Directory \<Longrightarrow> handle_image env d p st = Some (Inl (IsADirectoryError p), st)"
  by (simp add: handle_image_def read_file_def)

lemma handle_image_unsupported:
  "files env p = Some (RegularFile b) \<Longrightarrow> image_ext p = None \<Longrightarrow>
   handle_image env d p st = Some (Inr d, st)"
  by (simp add: handle_image_def read_file_def)

lemma handle_image_oversized:
  "files env p = Some (RegularFile b) \<Longrightarrow> image_ext p = Some ext \<Longrightarrow> length b > MAX_IMAGE_SIZE \<Longrightarrow>
   handle_image env d p st = Some (Inl (ValueError (length b) MAX_IMAGE_SIZE), st)"
  by (simp add: handle_image_def read_file_def guard_image_eq)

lemma handle_image_checked:
  assumes "files env p = Some (RegularFile b)" "image_ext p = Some ext" "length b \<le> MAX_IMAGE_SIZE"
    "apply_guardrail env (guardrail_calls st @ [moderation_image_request env b ext]) = Inr r"
  shows "handle_image env d p st =
     (case guard_nova_image env b ext
             (st\<lparr>guardrail_calls := guardrail_calls st @ [moderation_image_request env b ext]\<rparr>) of
        None \<Rightarrow> None
      | Some (Inl e, st2) \<Rightarrow> Some (Inl e, st2)
      | Some (Inr t, st2) \<Rightarrow>
          Some (Inr (if t = ''GUARDRAIL_INTERVENED'' then d(''nova'' \<mapsto> ''GUARDRAIL_INTERVENED'') else d),
                st2))"
  using assms by (simp add: handle_image_def read_file_def guard_image_eq)

lemma image_ext_None:
  "image_ext p = None \<longleftrightarrow>
     \<not> str_in ''jpg'' (lower p) \<and> \<not> str_in ''jpeg'' (lower p) \<and> \<not> str_in ''png'' (lower p)"
  by (simp add: image_ext_def)

lemma check_text_result:
  assumes "check_text env d c st = Some (Inr d', st')"
  shows "d' = d \<or> d' = d(''nova'' \<mapsto> ''GUARDRAIL_INTERVENED'')"
proof (cases "apply_guardrail env (guardrail_calls st @ [moderation_text_request env c])")
  case (Inl e)
  with assms show ?thesis by (simp add: check_text_raises)
next
  case (Inr r)
  with assms show ?thesis
    by (auto simp: check_text_returns split: option.splits sum.splits if_splits)
qed

lemma handle_image_cases:
  obtains
    (skipped) "handle_image env d p st = Some (Inr d, st)"
  | (failed) e st1 where "handle_image env d p st = Some (Inl e, st1)"
      "converse_calls st1 = converse_calls st"
  | (judged) b ext st1 where "converse_calls st1 = converse_calls st"
      "handle_image env d p st =
         (case guard_nova_image env b ext st1 of
            None \<Rightarrow> None
          | Some (Inl e, st2) \<Rightarrow> Some (Inl e, st2)
          | Some (Inr t, st2) \<Rightarrow>
              Some (Inr (if t = ''GUARDRAIL_INTERVENED''
                         then d(''nova'' \<mapsto> ''GUARDRAIL_INTERVENED'') else d), st2))"
proof (cases "files env p")
  case None
  then show ?thesis by (intro skipped handle_image_missing)
next
  case (Some node)
  show ?thesis
  proof (cases node)
    case Directory
    with Some have "handle_image env d p st = Some (Inl (IsADirectoryError p), st)"
      by (simp add: handle_image_directory)
    then show ?thesis by (rule failed) simp
  next
    case (RegularFile b)
    show ?thesis
    proof (cases "image_ext p")
      case None
      with Some RegularFile have "handle_image env d p st = Some (Inr d, st)"
        by (simp add: handle_image_unsupported)
      then show ?thesis by (rule skipped)
    next
      case ext: (Some ext)
      show ?thesis
      proof (cases "length b > MAX_IMAGE_SIZE")
        case True
        with Some RegularFile ext
        have "handle_image env d p st = Some (Inl (ValueError (length b) MAX_IMAGE_SIZE), st)"
          by (simp add: handle_image_oversized)
        then show ?thesis by (rule failed) simp
      next
        case False
        let ?st1 = "st\<lparr>guardrail_calls := guardrail_calls st @ [moderation_image_request env b ext]\<rparr>"
        show ?thesis
        proof (cases "apply_guardrail env (guardrail_calls st @ [moderation_image_request env b ext])")
          case (Inl e)
          with Some RegularFile ext False have "handle_image env d p st = Some (Inl e, ?st1)"
            by (simp add: handle_image_def read_file_def guard_image_eq)
          then show ?thesis by (rule failed) simp
        next
          case (Inr resp)
          with Some RegularFile ext False
          have "handle_image env d p st =
             (case guard_nova_image env b ext ?st1 of
                None \<Rightarrow> None
              | Some (Inl e, st2) \<Rightarrow> Some (Inl e, st2)
              | Some (Inr t, st2) \<Rightarrow>
                  Some (Inr (if t = ''GUARDRAIL_INTERVENED''
                             then d(''nova'' \<mapsto> ''GUARDRAIL_INTERVENED'') else d), st2))"
            by (simp add: handle_image_checked)
          with judged [of ?st1 b ext] show ?thesis by simp
        qed
      qed
    qed
  qed
qed

lemma handle_image_result:
  assumes "handle_image env d p st = Some (Inr d', st')"
  shows "d' = d \<or> d' = d(''nova'' \<mapsto> ''GUARDRAIL_INTERVENED'')"
proof (cases rule: handle_image_cases [of env d p st])
  case skipped
  with assms show ?thesis by simp
next
  case (failed e st1)
  with assms show ?thesis by simp
next
  case (judged b ext st1)
  with assms show ?thesis by (auto split: option.splits sum.splits if_splits)
qed

lemma guard_nova_image_calls:
  assumes "guard_nova_image env b f st = Some (r, st')"
  shows "\<exists>n. st' = sent st (Suc n) (image_request env b f) \<and>
             nth_reply env (image_request env b f) st (Suc n) = r"
proof -
  from assms have "converse_until_valid env (image_request env b f) st = Some (r, st')"
    by (simp add: guard_nova_image_def image_request_def)
  from loop_returns [OF this] show ?thesis by blast
qed

lemma handle_image_calls:
  assumes "handle_image env d p st = Some (r, st')"
  shows "\<exists>b f n. converse_calls st' = converse_calls st @ replicate n (image_request env b f)"
proof (cases rule: handle_image_cases [of env d p st])
  case skipped
  with assms have "converse_calls st' = converse_calls st @ replicate 0 (image_request env [] [])"
    by simp
  then show ?thesis by blast
next
  case (failed e st1)
  with assms have "converse_calls st' = converse_calls st @ replicate 0 (image_request env [] [])"
    by simp
  then show ?thesis by blast
next
  case (judged b ext st1)
  with assms obtain r2 where "guard_nova_image env b ext st1 = Some (r2, st')"
    by (auto split: option.splits sum.splits)
  from guard_nova_image_calls [OF this] obtain n where "st' = sent st1 (Suc n) (image_request env b ext)"
    by blast
  with judged(1) have "converse_calls st' = converse_calls st @ replicate (Suc n) (image_request env b ext)"
    by (simp add: sent_def)
  then show ?thesis by blast
qed

lemma image_formats_image_request: "image_formats (image_request env b f) = [''jpeg'']"
  by (simp add: image_formats_def image_request_def converse_args_def nova_image_messages_def)

lemma guard_image_only:
  "guard env None (Some p) st = handle_image env [''guardrails'' \<mapsto> ''NONE'', ''nova'' \<mapsto> ''NONE''] p st"
  by (simp add: guard_def)

lemma keeps_intervened:
  assumes "d' = d \<or> d' = d(''nova'' \<mapsto> ''GUARDRAIL_INTERVENED'')"
    and "d k = Some ''GUARDRAIL_INTERVENED''"
  shows "d' k = Some ''GUARDRAIL_INTERVENED''"
  using assms(1)
proof
  assume "d' = d"
  with assms(2) show ?thesis by simp
next
  assume "d' = d(''nova'' \<mapsto> ''GUARDRAIL_INTERVENED'')"
  with assms(2) show ?thesis by simp
qed

lemma verdict_valued_step:
  assumes "d' = d \<or> d' = d(''nova'' \<mapsto> ''GUARDRAIL_INTERVENED'')"
    and "dom d = {''guardrails'', ''nova''} \<and>
         d ''guardrails'' \<in> {Some ''GUARDRAIL_INTERVENED'', Some ''NONE''} \<and>
         d ''nova'' \<in> {Some ''GUARDRAIL_INTERVENED'', Some ''NONE''}"
  shows "dom d' = {''guardrails'', ''nova''} \<and>
         d' ''guardrails'' \<in> {Some ''GUARDRAIL_INTERVENED'', Some ''NONE''} \<and>
         d' ''nova'' \<in> {Some ''GUARDRAIL_INTERVENED'', Some ''NONE''}"
  using assms(1)
proof
  assume "d' = d"
  with assms(2) show ?thesis by simp
next
  assume d': "d' = d(''nova'' \<mapsto> ''GUARDRAIL_INTERVENED'')"
  have "dom d' = insert ''nova'' (dom d)"
    unfolding d' by simp
  with assms(2) have 1: "dom d' = {''guardrails'', ''nova''}" by (simp add: insert_commute)
  have 2: "d' ''guardrails'' = d ''guardrails''" unfolding d' by simp
  have 3: "d' ''nova'' = Some ''GUARDRAIL_INTERVENED''" unfolding d' by simp
  show ?thesis unfolding 1 2 3 using assms(2) by simp
qed

lemma guard_phases:
  assumes "guard env text img st = Some (Inr d, st')"
  obtains d1 st1 where
    "text = None \<and> d1 = default_decision \<and> st1 = st \<or>
     (\<exists>c. text = Some c \<and> check_text env default_decision c st = Some (Inr d1, st1))"
    "img = None \<and> d = d1 \<and> st' = st1 \<or>
     (\<exists>p. img = Some p \<and> handle_image env d1 p st1 = Some (Inr d, st'))"
proof -
  define first where "first =
    (case text of None \<Rightarrow> Some (Inr default_decision, st)
     | Some c \<Rightarrow> check_text env default_decision c st)"
  have g: "guard env text img st =
    (case first of None \<Rightarrow> None | Some (Inl e, st1) \<Rightarrow> Some (Inl e, st1)
     | Some (Inr d1, st1) \<Rightarrow>
         (case img of None \<Rightarrow> Some (Inr d1, st1) | Some p \<Rightarrow> handle_image env d1 p st1))"
    unfolding guard_def first_def default_decision_def Let_def by (rule refl)
  from assms g obtain d1 st1 where f: "first = Some (Inr d1, st1)"
    and i: "(case img of None \<Rightarrow> Some (Inr d1, st1) | Some p \<Rightarrow> handle_image env d1 p st1) =
        Some (Inr d, st')"
    by (cases first) (auto split: sum.splits)
  have 1: "text = None \<and> d1 = default_decision \<and> st1 = st \<or>
     (\<exists>c. text = Some c \<and> check_text env default_decision c st = Some (Inr d1, st1))"
    using f unfolding first_def by (cases "text") simp_all
  have 2: "img = None \<and> d = d1 \<and> st' = st1 \<or>
     (\<exists>p. img = Some p \<and> handle_image env d1 p st1 = Some (Inr d, st'))"
    using i by (cases img) auto
  from 1 2 show ?thesis by (rule that)
qed

lemma default_decision_valued:
  "dom default_decision = {''guardrails'', ''nova''} \<and>
   default_decision ''guardrails'' \<in> {Some ''GUARDRAIL_INTERVENED'', Some ''NONE''} \<and>
   default_decision ''nova'' \<in> {Some ''GUARDRAIL_INTERVENED'', Some ''NONE''}"
proof -
  have "dom default_decision = {''nova'', ''guardrails''}"
    by (simp add: default_decision_def)
  then have "dom default_decision = {''guardrails'', ''nova''}"
    by (simp add: insert_commute)
  then show ?thesis by (simp add: default_decision_def)
qed

section \<open>Properties\<close>

text \<open>
  C1. The claim: when the moderation service's reply indicates an intervention and the
  judge answers \<^verbatim>\<open>NONE\<close>, \<^verbatim>\<open>guard\<close> returns \<^verbatim>\<open>guardrails\<close> =
  \<^verbatim>\<open>GUARDRAIL_INTERVENED\<close> and \<^verbatim>\<open>nova\<close> = \<^verbatim>\<open>NONE\<close>. The code does
  not: \<^verbatim>\<open>guard_text\<close> returns the whole reply dictionary, which \<^verbatim>\<open>guard\<close>
  compares with a string, so the key \<^verbatim>\<open>guardrails\<close> keeps \<^verbatim>\<open>NONE\<close>. The
  theorem runs \<^verbatim>\<open>guard('some text')\<close> against a moderation service whose reply has
  action \<^verbatim>\<open>GUARDRAIL_INTERVENED\<close> and a judge that answers \<^verbatim>\<open>NONE\<close>.
\<close>

theorem guard_service_verdict_lost:
  "map_option fst
     (guard (stub (service_says ''GUARDRAIL_INTERVENED'') (judge_says ''NONE'') Map.empty)
        (Some ''some text'') None no_calls)
   = Some (Inr [''guardrails'' \<mapsto> ''NONE'', ''nova'' \<mapsto> ''NONE''])"
proof -
  let ?env = "stub (service_says ''GUARDRAIL_INTERVENED'') (judge_says ''NONE'') Map.empty"
  have service: "apply_guardrail ?env reqs = Inr \<lparr>action = ''GUARDRAIL_INTERVENED'', outputs = []\<rparr>"
    for reqs
    by (simp add: stub_def service_says_def judge_says_def judge_raises_def verdict_def)
  have judge: "guard_nova_text ?env ''some text'' st =
      Some (Inr ''NONE'', sent st (Suc 0) (text_request ?env ''some text''))" for st
    unfolding guard_nova_text_def text_request_def
    by (rule loop_accept) (simp_all add: nth_reply_def stub_def service_says_def judge_says_def judge_raises_def says_def result_text_def accepted_def)
  show ?thesis
    by (simp add: guard_def check_text_returns [OF service] judge)
qed

text \<open>
  C2, as stated, fails. Its general clause says that a reply that is present but malformed
  is never surfaced and always retried; a reply with no content block makes
  \<^verbatim>\<open>guard_nova_text\<close> raise \<^verbatim>\<open>IndexError\<close> after that one call. Its first
  clause asks only for first text segments; when the first reply has the text segment
  \<^verbatim>\<open>maybe?\<close> followed by an image block and the second reply is \<^verbatim>\<open>NONE\<close>,
  \<^verbatim>\<open>json.dumps\<close> raises \<^verbatim>\<open>TypeError\<close> on the first reply and the function
  ends after one call instead of returning \<^verbatim>\<open>NONE\<close> after two.
\<close>

theorem guard_nova_text_surfaces_unreadable_reply:
  "guard_nova_text (stub (service_says ''NONE'') (judge_replies []) Map.empty) ''some text'' no_calls =
     Some (Inl IndexError,
           \<lparr>guardrail_calls = [],
            converse_calls =
              [text_request (stub (service_says ''NONE'') (judge_replies []) Map.empty) ''some text'']\<rparr>) \<and>
   guard_nova_text (stub (service_says ''NONE'') maybe_with_image_then_none Map.empty)
      ''some text'' no_calls =
     Some (Inl TypeError,
           \<lparr>guardrail_calls = [],
            converse_calls =
              [text_request (stub (service_says ''NONE'') maybe_with_image_then_none Map.empty)
                 ''some text'']\<rparr>)"
proof (rule conjI)
  let ?env = "stub (service_says ''NONE'') (judge_replies []) Map.empty"
  have "result_text (converse ?env (converse_calls no_calls @ [text_request ?env ''some text''])) =
      Inl IndexError"
    by (simp add: stub_def judge_replies_def result_text_def)
  then have "guard_nova_text ?env ''some text'' no_calls =
      Some (Inl IndexError,
            no_calls\<lparr>converse_calls := converse_calls no_calls @ [text_request ?env ''some text'']\<rparr>)"
    by (rule guard_nova_text_raises)
  then show "guard_nova_text ?env ''some text'' no_calls =
     Some (Inl IndexError,
           \<lparr>guardrail_calls = [], converse_calls = [text_request ?env ''some text'']\<rparr>)"
    by (simp add: no_calls_def)
next
  let ?env = "stub (service_says ''NONE'') maybe_with_image_then_none Map.empty"
  have "result_text (converse ?env (converse_calls no_calls @ [text_request ?env ''some text''])) =
      Inl TypeError"
    by (simp add: stub_def maybe_with_image_then_none_def result_text_def no_calls_def)
  then have "guard_nova_text ?env ''some text'' no_calls =
      Some (Inl TypeError,
            no_calls\<lparr>converse_calls := converse_calls no_calls @ [text_request ?env ''some text'']\<rparr>)"
    by (rule guard_nova_text_raises)
  then show "guard_nova_text ?env ''some text'' no_calls =
     Some (Inl TypeError,
           \<lparr>guardrail_calls = [], converse_calls = [text_request ?env ''some text'']\<rparr>)"
    by (simp add: no_calls_def)
qed

text \<open>
  C2, amended. When the first reply of the judge endpoint holds no bytes and its first
  content block is a text segment that is neither token, and the second reply holds no
  bytes and its first content block is the text segment \<^verbatim>\<open>NONE\<close>,
  \<^verbatim>\<open>guard_nova_text\<close> returns \<^verbatim>\<open>NONE\<close> after exactly two calls, both with
  the same request. In general a reply that holds no bytes and whose first content block
  is a text segment other than the two tokens makes the function go on as if started
  afresh with one more identical request on record, and a value it returns is always one
  of the two tokens.
\<close>

theorem guard_nova_text_retries_malformed:
  "(converse env (converse_calls st @ [text_request env c]) = Inr reply1 \<and>
    output_message_content reply1 = TextBlock t1 # rest1 \<and>
    \<not> list_ex holds_bytes (output_message_content reply1) \<and>
    t1 \<noteq> ''GUARDRAIL_INTERVENED'' \<and> t1 \<noteq> ''NONE'' \<and>
    converse env (converse_calls st @ [text_request env c, text_request env c]) = Inr reply2 \<and>
    output_message_content reply2 = TextBlock ''NONE'' # rest2 \<and>
    \<not> list_ex holds_bytes (output_message_content reply2) \<longrightarrow>
    guard_nova_text env c st =
      Some (Inr ''NONE'',
            st\<lparr>converse_calls := converse_calls st @ [text_request env c, text_request env c]\<rparr>)) \<and>
   (converse env (converse_calls st @ [text_request env c]) = Inr reply1 \<and>
    output_message_content reply1 = TextBlock t1 # rest1 \<and>
    \<not> list_ex holds_bytes (output_message_content reply1) \<and>
    t1 \<noteq> ''GUARDRAIL_INTERVENED'' \<and> t1 \<noteq> ''NONE'' \<longrightarrow>
    guard_nova_text env c st =
      guard_nova_text env c (st\<lparr>converse_calls := converse_calls st @ [text_request env c]\<rparr>)) \<and>
   (guard_nova_text env c st = Some (Inr t, st') \<longrightarrow> t = ''GUARDRAIL_INTERVENED'' \<or> t = ''NONE'')"
proof (intro conjI impI)
  let ?req = "text_request env c"
  assume h: "converse env (converse_calls st @ [?req]) = Inr reply1 \<and>
    output_message_content reply1 = TextBlock t1 # rest1 \<and>
    \<not> list_ex holds_bytes (output_message_content reply1) \<and>
    t1 \<noteq> ''GUARDRAIL_INTERVENED'' \<and> t1 \<noteq> ''NONE'' \<and>
    converse env (converse_calls st @ [?req, ?req]) = Inr reply2 \<and>
    output_message_content reply2 = TextBlock ''NONE'' # rest2 \<and>
    \<not> list_ex holds_bytes (output_message_content reply2)"
  have first: "nth_reply env ?req st (Suc 0) = Inr t1"
    unfolding nth_reply_1 using h by (intro result_text_first [of _ reply1 t1 rest1]) auto
  have bad: "\<not> accepted t1"
    using h by (simp add: accepted_def)
  have second: "nth_reply env ?req (sent st (Suc 0) ?req) (Suc 0) = Inr ''NONE''"
    unfolding nth_reply_shift nth_reply_2
    using h by (intro result_text_first [of _ reply2 "''NONE''" rest2]) auto
  have "converse_until_valid env ?req st = converse_until_valid env ?req (sent st (Suc 0) ?req)"
    using first bad by (rule loop_retry)
  also have "\<dots> = Some (Inr ''NONE'', sent (sent st (Suc 0) ?req) (Suc 0) ?req)"
    using second by (rule loop_accept) (simp add: accepted_def)
  finally show "guard_nova_text env c st =
      Some (Inr ''NONE'', st\<lparr>converse_calls := converse_calls st @ [?req, ?req]\<rparr>)"
    by (simp add: guard_nova_text_def text_request_def sent_def)
next
  let ?req = "text_request env c"
  assume h: "converse env (converse_calls st @ [?req]) = Inr reply1 \<and>
    output_message_content reply1 = TextBlock t1 # rest1 \<and>
    \<not> list_ex holds_bytes (output_message_content reply1) \<and>
    t1 \<noteq> ''GUARDRAIL_INTERVENED'' \<and> t1 \<noteq> ''NONE''"
  have first: "nth_reply env ?req st (Suc 0) = Inr t1"
    unfolding nth_reply_1 using h by (intro result_text_first [of _ reply1 t1 rest1]) auto
  have bad: "\<not> accepted t1"
    using h by (simp add: accepted_def)
  have "converse_until_valid env ?req st = converse_until_valid env ?req (sent st (Suc 0) ?req)"
    using first bad by (rule loop_retry)
  then show "guard_nova_text env c st =
      guard_nova_text env c (st\<lparr>converse_calls := converse_calls st @ [?req]\<rparr>)"
    by (simp add: guard_nova_text_def text_request_def sent_def)
next
  assume "guard_nova_text env c st = Some (Inr t, st')"
  then have "accepted t"
    unfolding guard_nova_text_def by (rule loop_value)
  then show "t = ''GUARDRAIL_INTERVENED'' \<or> t = ''NONE''"
    by (simp add: accepted_def)
qed

theorem guard_nova_text_retries_malformed_witness:
  "guard_nova_text (stub (service_says ''NONE'') maybe_then_none Map.empty) ''some text'' no_calls =
     Some (Inr ''NONE'',
           \<lparr>guardrail_calls = [],
            converse_calls =
              [text_request (stub (service_says ''NONE'') maybe_then_none Map.empty) ''some text'',
               text_request (stub (service_says ''NONE'') maybe_then_none Map.empty) ''some text'']\<rparr>)"
  using guard_nova_text_retries_malformed
          [of "stub (service_says ''NONE'') maybe_then_none Map.empty" no_calls "''some text''"
              "\<lparr>output_message_content = [TextBlock ''maybe?''], stopReason = ''end_turn''\<rparr>"
              "''maybe?''" "[]"
              "\<lparr>output_message_content = [TextBlock ''NONE''], stopReason = ''end_turn''\<rparr>" "[]"]
  by (simp add: stub_def maybe_then_none_def says_def no_calls_def)



text \<open>
  C4. \<^verbatim>\<open>guard_image\<close> on a blob longer than 4 * 1024 * 1024 bytes raises the
  size-limit \<^verbatim>\<open>ValueError\<close> and leaves the record of calls as it was (no call of the
  moderation endpoint). On a blob at or under the cap the size check raises nothing: the
  function calls the endpoint once and its outcome is the endpoint's own answer.
\<close>

theorem guard_image_size_limit:
  "(length guard_blob > 4 * 1024 * 1024 \<longrightarrow>
      guard_image env guard_blob img_format st =
        (Inl (ValueError (length guard_blob) (4 * 1024 * 1024)), st)) \<and>
   (length guard_blob \<le> 4 * 1024 * 1024 \<longrightarrow>
      guard_image env guard_blob img_format st =
        (map_sum id Dict
           (apply_guardrail env
              (guardrail_calls st @ [moderation_image_request env guard_blob img_format])),
         st\<lparr>guardrail_calls :=
              guardrail_calls st @ [moderation_image_request env guard_blob img_format]\<rparr>))"
  by (simp add: guard_image_eq MAX_IMAGE_SIZE_def)

theorem guard_image_size_limit_witness:
  "guard_image (stub (service_says ''NONE'') (judge_says ''NONE'') Map.empty)
      (replicate 4194305 0) ''png'' no_calls = (Inl (ValueError 4194305 4194304), no_calls) \<and>
   guard_image (stub (service_says ''NONE'') (judge_says ''NONE'') Map.empty)
      (replicate 4194304 0) ''png'' no_calls =
     (Inr (Dict \<lparr>action = ''NONE'', outputs = []\<rparr>),
      \<lparr>guardrail_calls =
         [\<lparr>guardrailIdentifier = Some ''guardrail-1'', guardrailVersion = Some ''1'',
           request_source = ''INPUT'',
           request_content = [GuardImage ''png'' (replicate 4194304 0)]\<rparr>],
       converse_calls = []\<rparr>)"
  using guard_image_size_limit
          [of "replicate 4194305 0" "stub (service_says ''NONE'') (judge_says ''NONE'') Map.empty"
              "''png''" no_calls]
        guard_image_size_limit
          [of "replicate 4194304 0" "stub (service_says ''NONE'') (judge_says ''NONE'') Map.empty"
              "''png''" no_calls]
  by (simp add: stub_def service_says_def judge_says_def judge_raises_def verdict_def no_calls_def moderation_image_request_def)

text \<open>
  C5, as stated, fails. The claim lets the call never return whenever no attempt yields a
  valid token and no transport error occurs; an endpoint that always answers with a single
  block that is not text meets both, and \<^verbatim>\<open>guard_nova_text\<close> ends at the first
  attempt with \<^verbatim>\<open>KeyError\<close>. The claim lets the call return at the first attempt
  whose first text segment is a token; when that reply is the text segment
  \<^verbatim>\<open>NONE\<close> followed by an image block, \<^verbatim>\<open>json.dumps\<close> raises
  \<^verbatim>\<open>TypeError\<close> and the call ends at that attempt without returning.
\<close>

theorem guard_nova_text_ends_without_token:
  "guard_nova_text
      (stub (service_says ''NONE'') (judge_replies [OtherBlock ''toolUse'' False]) Map.empty)
      ''some text'' no_calls =
     Some (Inl (KeyError ''text''),
           \<lparr>guardrail_calls = [],
            converse_calls =
              [text_request
                 (stub (service_says ''NONE'') (judge_replies [OtherBlock ''toolUse'' False]) Map.empty)
                 ''some text'']\<rparr>) \<and>
   guard_nova_text
      (stub (service_says ''NONE'')
         (judge_replies [TextBlock ''NONE'', ImageBlock ''png'' [137, 80, 78, 71]]) Map.empty)
      ''some text'' no_calls =
     Some (Inl TypeError,
           \<lparr>guardrail_calls = [],
            converse_calls =
              [text_request
                 (stub (service_says ''NONE'')
                    (judge_replies [TextBlock ''NONE'', ImageBlock ''png'' [137, 80, 78, 71]]) Map.empty)
                 ''some text'']\<rparr>)"
proof (rule conjI)
  let ?env = "stub (service_says ''NONE'') (judge_replies [OtherBlock ''toolUse'' False]) Map.empty"
  have "result_text (converse ?env (converse_calls no_calls @ [text_request ?env ''some text''])) =
      Inl (KeyError ''text'')"
    by (simp add: stub_def judge_replies_def result_text_def)
  then have "guard_nova_text ?env ''some text'' no_calls =
      Some (Inl (KeyError ''text''),
            no_calls\<lparr>converse_calls := converse_calls no_calls @ [text_request ?env ''some text'']\<rparr>)"
    by (rule guard_nova_text_raises)
  then show "guard_nova_text ?env ''some text'' no_calls =
     Some (Inl (KeyError ''text''),
           \<lparr>guardrail_calls = [], converse_calls = [text_request ?env ''some text'']\<rparr>)"
    by (simp add: no_calls_def)
next
  let ?env = "stub (service_says ''NONE'')
         (judge_replies [TextBlock ''NONE'', ImageBlock ''png'' [137, 80, 78, 71]]) Map.empty"
  have "result_text (converse ?env (converse_calls no_calls @ [text_request ?env ''some text''])) =
      Inl TypeError"
    by (simp add: stub_def judge_replies_def result_text_def)
  then have "guard_nova_text ?env ''some text'' no_calls =
      Some (Inl TypeError,
            no_calls\<lparr>converse_calls := converse_calls no_calls @ [text_request ?env ''some text'']\<rparr>)"
    by (rule guard_nova_text_raises)
  then show "guard_nova_text ?env ''some text'' no_calls =
     Some (Inl TypeError,
           \<lparr>guardrail_calls = [], converse_calls = [text_request ?env ''some text'']\<rparr>)"
    by (simp add: no_calls_def)
qed

text \<open>
  C5, amended. \<^verbatim>\<open>guard_nova_text\<close> returns the token \<open>t\<close> after exactly \<open>n\<close> calls
  of the judge endpoint if and only if attempt \<open>n\<close> is the first whose reply holds no
  bytes and has \<open>t\<close>, one of the two tokens, as its first content block, the reply of every
  earlier attempt holding no bytes and having as its first content block a text segment
  that is not a token (so no earlier attempt raised). If the reply of every attempt holds
  no bytes and has as its first content block a text segment that is not a token, the call
  never returns: the loop has no bound on the number of attempts.
\<close>

theorem guard_nova_text_first_valid_attempt:
  "((\<exists>st'. guard_nova_text env c st = Some (Inr t, st') \<and>
           length (converse_calls st') = length (converse_calls st) + n) \<longleftrightarrow>
      0 < n \<and> nth_reply env (text_request env c) st n = Inr t \<and> accepted t \<and>
      (\<forall>k. 0 < k \<and> k < n \<longrightarrow> rejected (nth_reply env (text_request env c) st k))) \<and>
   ((\<forall>k. 0 < k \<longrightarrow> rejected (nth_reply env (text_request env c) st k)) \<longrightarrow>
      guard_nova_text env c st = None)"
proof (rule conjI [OF iffI impI])
  let ?req = "text_request env c"
  assume "\<exists>st'. guard_nova_text env c st = Some (Inr t, st') \<and>
           length (converse_calls st') = length (converse_calls st) + n"
  then obtain st' where ret: "converse_until_valid env ?req st = Some (Inr t, st')"
    and len: "length (converse_calls st') = length (converse_calls st) + n"
    by (auto simp: guard_nova_text_def text_request_def)
  from loop_returns [OF ret] obtain m where m: "st' = sent st (Suc m) ?req"
    "nth_reply env ?req st (Suc m) = Inr t" "\<not> rejected (Inr t)"
    "\<forall>k. 0 < k \<and> k \<le> m \<longrightarrow> rejected (nth_reply env ?req st k)"
    by blast
  from m(1) len have n: "n = Suc m" by (simp add: sent_def)
  show "0 < n \<and> nth_reply env ?req st n = Inr t \<and> accepted t \<and>
      (\<forall>k. 0 < k \<and> k < n \<longrightarrow> rejected (nth_reply env ?req st k))"
    using m(2-4) n by (simp add: rejected_def)
next
  let ?req = "text_request env c"
  assume h: "0 < n \<and> nth_reply env ?req st n = Inr t \<and> accepted t \<and>
      (\<forall>k. 0 < k \<and> k < n \<longrightarrow> rejected (nth_reply env ?req st k))"
  then have "converse_until_valid env ?req st = Some (Inr t, sent st n ?req)"
    by (intro loop_returns_at) simp_all
  then have "guard_nova_text env c st = Some (Inr t, sent st n ?req) \<and>
           length (converse_calls (sent st n ?req)) = length (converse_calls st) + n"
    by (simp add: guard_nova_text_def text_request_def sent_def)
  then show "\<exists>st'. guard_nova_text env c st = Some (Inr t, st') \<and>
           length (converse_calls st') = length (converse_calls st) + n"
    by blast
next
  assume "\<forall>k. 0 < k \<longrightarrow> rejected (nth_reply env (text_request env c) st k)"
  then have "converse_until_valid env (text_request env c) st = None"
    by (intro loop_diverges) simp
  then show "guard_nova_text env c st = None"
    by (simp add: guard_nova_text_def text_request_def)
qed

theorem guard_nova_text_first_valid_attempt_witness:
  "(\<exists>st'. guard_nova_text (stub (service_says ''NONE'') maybe_then_none Map.empty)
             ''some text'' no_calls = Some (Inr ''NONE'', st') \<and>
          length (converse_calls st') = 2) \<and>
   guard_nova_text (stub (service_says ''NONE'') never_valid Map.empty) ''some text'' no_calls = None"
proof -
  let ?env = "stub (service_says ''NONE'') maybe_then_none Map.empty"
  let ?env' = "stub (service_says ''NONE'') never_valid Map.empty"
  have 1: "nth_reply ?env (text_request ?env ''some text'') no_calls k =
      Inr (if k = 1 then ''maybe?'' else ''NONE'')" for k
    by (simp add: nth_reply_def sent_def stub_def service_says_def judge_says_def judge_raises_def maybe_then_none_def says_def result_text_def
          no_calls_def)
  have 2: "nth_reply ?env' (text_request ?env' ''some text'') no_calls k = Inr ''maybe?''" for k
    by (simp add: nth_reply_def sent_def stub_def service_says_def judge_says_def judge_raises_def never_valid_def says_def result_text_def)
  have "(\<exists>st'. guard_nova_text ?env ''some text'' no_calls = Some (Inr ''NONE'', st') \<and>
          length (converse_calls st') = length (converse_calls no_calls) + 2)"
    using guard_nova_text_first_valid_attempt [of ?env "''some text''" no_calls "''NONE''" 2]
    by (simp add: 1 accepted_def rejected_def)
  moreover have "guard_nova_text ?env' ''some text'' no_calls = None"
    using guard_nova_text_first_valid_attempt [of ?env' "''some text''" no_calls]
    by (simp add: 2 accepted_def rejected_def)
  ultimately show ?thesis by (simp add: no_calls_def numeral_2_eq_2)
qed

text \<open>
  C6, as stated, fails: the claim covers every existing path without one of the three
  substrings, and \<^verbatim>\<open>os.path.exists\<close> holds of a directory, which
  \<^verbatim>\<open>open\<close> refuses. \<^verbatim>\<open>handle_image\<close> opens and reads the path before it looks
  at the extension, so \<^verbatim>\<open>guard(None, '/tmp')\<close> ends with
  \<^verbatim>\<open>IsADirectoryError\<close> instead of the all-\<^verbatim>\<open>NONE\<close> decision.
\<close>

theorem guard_directory_path_raises:
  "files (stub (service_says ''NONE'') (judge_says ''NONE'') one_directory) ''/tmp'' \<noteq> None \<and>
   \<not> str_in ''jpg'' (lower ''/tmp'') \<and> \<not> str_in ''jpeg'' (lower ''/tmp'') \<and>
   \<not> str_in ''png'' (lower ''/tmp'') \<and>
   guard (stub (service_says ''NONE'') (judge_says ''NONE'') one_directory)
     None (Some ''/tmp'') no_calls = Some (Inl (IsADirectoryError ''/tmp''), no_calls)"
proof -
  have "files (stub (service_says ''NONE'') (judge_says ''NONE'') one_directory) ''/tmp'' =
      Some Directory"
    by (simp add: stub_def service_says_def judge_says_def judge_raises_def one_directory_def)
  then show ?thesis
    by (simp add: guard_image_only handle_image_directory lower_def lower_char_def)
qed

text \<open>
  C6, amended. For every path that does not exist, and for every path that is a readable
  regular file and whose lower-cased text contains none of \<^verbatim>\<open>jpg\<close>,
  \<^verbatim>\<open>jpeg\<close>, \<^verbatim>\<open>png\<close>: \<^verbatim>\<open>handle_image\<close> returns normally with the
  caller's decision unchanged and the record of calls unchanged (neither image client is
  invoked), and \<^verbatim>\<open>guard(None, path)\<close> returns the all-\<^verbatim>\<open>NONE\<close> decision.
\<close>

theorem guard_skips_missing_or_unsupported:
  "files env p = None \<or>
   (\<exists>b. files env p = Some (RegularFile b)) \<and>
     \<not> str_in ''jpg'' (lower p) \<and> \<not> str_in ''jpeg'' (lower p) \<and> \<not> str_in ''png'' (lower p) \<longrightarrow>
   handle_image env d p st = Some (Inr d, st) \<and>
   guard env None (Some p) st = Some (Inr [''guardrails'' \<mapsto> ''NONE'', ''nova'' \<mapsto> ''NONE''], st)"
proof
  assume h: "files env p = None \<or>
   (\<exists>b. files env p = Some (RegularFile b)) \<and>
     \<not> str_in ''jpg'' (lower p) \<and> \<not> str_in ''jpeg'' (lower p) \<and> \<not> str_in ''png'' (lower p)"
  have "handle_image env d' p st = Some (Inr d', st)" for d'
  proof (cases "files env p")
    case None
    then show ?thesis by (rule handle_image_missing)
  next
    case (Some node)
    with h obtain b where "files env p = Some (RegularFile b)" and "image_ext p = None"
      by (auto simp: image_ext_None)
    then show ?thesis by (rule handle_image_unsupported)
  qed
  then show "handle_image env d p st = Some (Inr d, st) \<and>
    guard env None (Some p) st = Some (Inr [''guardrails'' \<mapsto> ''NONE'', ''nova'' \<mapsto> ''NONE''], st)"
    by (simp add: guard_image_only)
qed

theorem guard_skips_missing_or_unsupported_witness:
  "guard (stub (service_says ''NONE'') (judge_says ''NONE'') two_files)
     None (Some ''photo.JPG'') no_calls =
     Some (Inr [''guardrails'' \<mapsto> ''NONE'', ''nova'' \<mapsto> ''NONE''], no_calls) \<and>
   guard (stub (service_says ''NONE'') (judge_says ''NONE'') two_files)
     None (Some ''chart.svg'') no_calls =
     Some (Inr [''guardrails'' \<mapsto> ''NONE'', ''nova'' \<mapsto> ''NONE''], no_calls)"
  using guard_skips_missing_or_unsupported
          [of "stub (service_says ''NONE'') (judge_says ''NONE'') two_files" "''photo.JPG''"
              Map.empty no_calls]
        guard_skips_missing_or_unsupported
          [of "stub (service_says ''NONE'') (judge_says ''NONE'') two_files" "''chart.svg''"
              Map.empty no_calls]
  by (simp add: stub_def service_says_def judge_says_def judge_raises_def two_files_def lower_def lower_char_def)

text \<open>
  C7. Whenever \<^verbatim>\<open>guard\<close> returns a decision, for any text and image path, the
  decision has exactly the two keys \<^verbatim>\<open>guardrails\<close> and \<^verbatim>\<open>nova\<close>, each holding
  \<^verbatim>\<open>GUARDRAIL_INTERVENED\<close> or \<^verbatim>\<open>NONE\<close>. Each of the two checks of an invocation
  (the text block of \<^verbatim>\<open>guard\<close>, then \<^verbatim>\<open>handle_image\<close>) leaves every key that
  holds \<^verbatim>\<open>GUARDRAIL_INTERVENED\<close> at that value, whatever decision it starts from.
\<close>

theorem guard_decision_two_valued_monotone:
  "(guard env text img st = Some (Inr d, st') \<longrightarrow>
      dom d = {''guardrails'', ''nova''} \<and>
      d ''guardrails'' \<in> {Some ''GUARDRAIL_INTERVENED'', Some ''NONE''} \<and>
      d ''nova'' \<in> {Some ''GUARDRAIL_INTERVENED'', Some ''NONE''}) \<and>
   (check_text env d0 c st = Some (Inr d1, st1) \<longrightarrow>
      (\<forall>k. d0 k = Some ''GUARDRAIL_INTERVENED'' \<longrightarrow> d1 k = Some ''GUARDRAIL_INTERVENED'')) \<and>
   (handle_image env d0 p st = Some (Inr d2, st2) \<longrightarrow>
      (\<forall>k. d0 k = Some ''GUARDRAIL_INTERVENED'' \<longrightarrow> d2 k = Some ''GUARDRAIL_INTERVENED''))"
proof (intro conjI impI allI)
  assume "check_text env d0 c st = Some (Inr d1, st1)"
  then have "d1 = d0 \<or> d1 = d0(''nova'' \<mapsto> ''GUARDRAIL_INTERVENED'')"
    by (rule check_text_result)
  then show "d1 k = Some ''GUARDRAIL_INTERVENED''" if "d0 k = Some ''GUARDRAIL_INTERVENED''" for k
    using that by (rule keeps_intervened)
next
  assume "handle_image env d0 p st = Some (Inr d2, st2)"
  then have "d2 = d0 \<or> d2 = d0(''nova'' \<mapsto> ''GUARDRAIL_INTERVENED'')"
    by (rule handle_image_result)
  then show "d2 k = Some ''GUARDRAIL_INTERVENED''" if "d0 k = Some ''GUARDRAIL_INTERVENED''" for k
    using that by (rule keeps_intervened)
next
  assume ret: "guard env text img st = Some (Inr d, st')"
  have "dom d = {''guardrails'', ''nova''} \<and>
      d ''guardrails'' \<in> {Some ''GUARDRAIL_INTERVENED'', Some ''NONE''} \<and>
      d ''nova'' \<in> {Some ''GUARDRAIL_INTERVENED'', Some ''NONE''}"
  proof (rule guard_phases [OF ret])
    fix da sta
    assume t: "text = None \<and> da = default_decision \<and> sta = st \<or>
     (\<exists>c. text = Some c \<and> check_text env default_decision c st = Some (Inr da, sta))"
      and i: "img = None \<and> d = da \<and> st' = sta \<or>
     (\<exists>p. img = Some p \<and> handle_image env da p sta = Some (Inr d, st'))"
    from t have "da = default_decision \<or> da = default_decision(''nova'' \<mapsto> ''GUARDRAIL_INTERVENED'')"
      by (auto dest: check_text_result)
    then have a: "dom da = {''guardrails'', ''nova''} \<and>
         da ''guardrails'' \<in> {Some ''GUARDRAIL_INTERVENED'', Some ''NONE''} \<and>
         da ''nova'' \<in> {Some ''GUARDRAIL_INTERVENED'', Some ''NONE''}"
      using default_decision_valued by (rule verdict_valued_step)
    from i have "d = da \<or> d = da(''nova'' \<mapsto> ''GUARDRAIL_INTERVENED'')"
      by (auto dest: handle_image_result)
    then show ?thesis
      using a by (rule verdict_valued_step)
  qed
  then show "dom d = {''guardrails'', ''nova''}"
    and "d ''guardrails'' \<in> {Some ''GUARDRAIL_INTERVENED'', Some ''NONE''}"
    and "d ''nova'' \<in> {Some ''GUARDRAIL_INTERVENED'', Some ''NONE''}"
    by simp_all
qed

theorem guard_decision_two_valued_monotone_witness:
  "map_option fst
     (guard (stub (service_says ''NONE'') intervened_then_none two_files)
        (Some ''some text'') (Some ''chart.png'') no_calls) =
     Some (Inr [''guardrails'' \<mapsto> ''NONE'', ''nova'' \<mapsto> ''GUARDRAIL_INTERVENED'']) \<and>
   dom [''guardrails'' \<mapsto> ''NONE'', ''nova'' \<mapsto> ''GUARDRAIL_INTERVENED''] = {''guardrails'', ''nova''}"
proof -
  let ?env = "stub (service_says ''NONE'') intervened_then_none two_files"
  let ?blob = "[137, 80, 78, 71] :: bytes"
  let ?d1 = "default_decision(''nova'' \<mapsto> ''GUARDRAIL_INTERVENED'')"
  let ?st1 = "no_calls\<lparr>guardrail_calls :=
                 guardrail_calls no_calls @ [moderation_text_request ?env ''some text'']\<rparr>"
  let ?st2 = "sent ?st1 (Suc 0) (text_request ?env ''some text'')"
  let ?st3 = "?st2\<lparr>guardrail_calls :=
                 guardrail_calls ?st2 @ [moderation_image_request ?env ?blob ''png'']\<rparr>"
  let ?st4 = "sent ?st3 (Suc 0) (image_request ?env ?blob ''png'')"
  have on_disk: "files ?env ''chart.png'' = Some (RegularFile ?blob)"
    by (simp add: stub_def service_says_def judge_says_def judge_raises_def two_files_def)
  have size: "length ?blob \<le> MAX_IMAGE_SIZE"
    by (simp add: MAX_IMAGE_SIZE_def)
  have service: "apply_guardrail ?env reqs = Inr \<lparr>action = ''NONE'', outputs = []\<rparr>" for reqs
    by (simp add: stub_def service_says_def judge_says_def judge_raises_def verdict_def)
  have "converse ?env (converse_calls ?st1 @ [text_request ?env ''some text'']) =
      Inr \<lparr>output_message_content = [TextBlock ''GUARDRAIL_INTERVENED''], stopReason = ''end_turn''\<rparr>"
    by (simp add: stub_def service_says_def judge_says_def judge_raises_def intervened_then_none_def says_def no_calls_def)
  then have judge_text: "guard_nova_text ?env ''some text'' ?st1 = Some (Inr ''GUARDRAIL_INTERVENED'', ?st2)"
    by (rule guard_nova_text_accepts) simp_all
  have "converse ?env (converse_calls ?st3 @ [image_request ?env ?blob ''png'']) =
      Inr \<lparr>output_message_content = [TextBlock ''NONE''], stopReason = ''end_turn''\<rparr>"
    by (simp add: stub_def service_says_def judge_says_def judge_raises_def intervened_then_none_def says_def no_calls_def sent_def)
  then have judge_image: "guard_nova_image ?env ?blob ''png'' ?st3 = Some (Inr ''NONE'', ?st4)"
    by (rule guard_nova_image_accepts) simp_all
  have step1: "check_text ?env default_decision ''some text'' no_calls = Some (Inr ?d1, ?st2)"
    by (simp add: check_text_returns [OF service] judge_text)
  have step2: "handle_image ?env ?d1 ''chart.png'' ?st2 = Some (Inr ?d1, ?st4)"
    by (simp add: handle_image_checked [OF on_disk image_ext_chart_png size service] judge_image)
  have run: "guard ?env (Some ''some text'') (Some ''chart.png'') no_calls = Some (Inr ?d1, ?st4)"
    using step1 step2 by (simp add: guard_def default_decision_def)
  note at_start = guard_decision_two_valued_monotone
      [of ?env "Some ''some text''" "Some ''chart.png''" no_calls ?d1 ?st4
          default_decision "''some text''" ?d1 ?st2]
  note at_image = guard_decision_two_valued_monotone
      [of ?env None None ?st2 default_decision ?st2
          ?d1 "''some text''" ?d1 ?st2 "''chart.png''" ?d1 ?st4]
  have valued: "dom ?d1 = {''guardrails'', ''nova''} \<and>
      ?d1 ''guardrails'' \<in> {Some ''GUARDRAIL_INTERVENED'', Some ''NONE''} \<and>
      ?d1 ''nova'' \<in> {Some ''GUARDRAIL_INTERVENED'', Some ''NONE''}"
    using at_start [THEN conjunct1, THEN mp, OF run] .
  have kept_by_text: "\<forall>k. default_decision k = Some ''GUARDRAIL_INTERVENED'' \<longrightarrow>
      ?d1 k = Some ''GUARDRAIL_INTERVENED''"
    using at_start [THEN conjunct2, THEN conjunct1, THEN mp, OF step1] .
  have kept_by_image: "\<forall>k. ?d1 k = Some ''GUARDRAIL_INTERVENED'' \<longrightarrow>
      ?d1 k = Some ''GUARDRAIL_INTERVENED''"
    using at_image [THEN conjunct2, THEN conjunct2, THEN mp, OF step2] .
  have d1: "?d1 = [''guardrails'' \<mapsto> ''NONE'', ''nova'' \<mapsto> ''GUARDRAIL_INTERVENED'']"
    by (simp add: default_decision_def)
  from run have r: "map_option fst
     (guard ?env (Some ''some text'') (Some ''chart.png'') no_calls) =
     Some (Inr [''guardrails'' \<mapsto> ''NONE'', ''nova'' \<mapsto> ''GUARDRAIL_INTERVENED''])"
    unfolding d1 by simp
  from valued have v:
    "dom [''guardrails'' \<mapsto> ''NONE'', ''nova'' \<mapsto> ''GUARDRAIL_INTERVENED''] = {''guardrails'', ''nova''}"
    unfolding d1 by (rule conjunct1)
  from r v show ?thesis by (rule conjI)
qed

text \<open>
  C8. With neither a text nor an image path, \<^verbatim>\<open>guard()\<close> returns the decision with
  both keys \<^verbatim>\<open>NONE\<close>, as a normal result, and the record of calls is unchanged: no
  client call is made.
\<close>

theorem guard_no_input:
  "guard env None None st = Some (Inr [''guardrails'' \<mapsto> ''NONE'', ''nova'' \<mapsto> ''NONE''], st)"
  by (simp add: guard_def)

text \<open>
  C9. The request \<^verbatim>\<open>guard_nova_image\<close> builds carries one image block and its format
  tag is \<^verbatim>\<open>jpeg\<close>, whatever the argument \<^verbatim>\<open>img_format\<close> is. Every call of the
  judge endpoint made by a run of \<^verbatim>\<open>guard_nova_image\<close> that returns sends that request,
  and every call of the judge endpoint made by \<^verbatim>\<open>handle_image\<close> has the tag
  \<^verbatim>\<open>jpeg\<close>, also for a path resolved as \<^verbatim>\<open>png\<close>.
\<close>

theorem guard_nova_image_sends_jpeg:
  "image_formats (image_request env blob fmt) = [''jpeg''] \<and>
   (guard_nova_image env blob fmt st = Some (r, st') \<longrightarrow>
      (\<exists>n. converse_calls st' = converse_calls st @ replicate (Suc n) (image_request env blob fmt))) \<and>
   (handle_image env d p st = Some (r', st'') \<longrightarrow>
      (\<forall>q \<in> set (drop (length (converse_calls st)) (converse_calls st'')).
          image_formats q = [''jpeg'']))"
proof (intro conjI impI)
  show "image_formats (image_request env blob fmt) = [''jpeg'']"
    by (rule image_formats_image_request)
next
  assume "guard_nova_image env blob fmt st = Some (r, st')"
  from guard_nova_image_calls [OF this] obtain n
    where "st' = sent st (Suc n) (image_request env blob fmt)" by blast
  then have "converse_calls st' = converse_calls st @ replicate (Suc n) (image_request env blob fmt)"
    by (simp add: sent_def)
  then show "\<exists>n. converse_calls st' = converse_calls st @ replicate (Suc n) (image_request env blob fmt)"
    by blast
next
  assume "handle_image env d p st = Some (r', st'')"
  from handle_image_calls [OF this] obtain b f n
    where "converse_calls st'' = converse_calls st @ replicate n (image_request env b f)" by blast
  then show "\<forall>q \<in> set (drop (length (converse_calls st)) (converse_calls st'')).
      image_formats q = [''jpeg'']"
    by (simp add: image_formats_image_request)
qed

theorem guard_nova_image_sends_jpeg_witness:
  "handle_image (stub (service_says ''NONE'') (judge_says ''NONE'') two_files)
      default_decision ''chart.png'' no_calls =
     Some (Inr default_decision,
           \<lparr>guardrail_calls =
              [moderation_image_request
                 (stub (service_says ''NONE'') (judge_says ''NONE'') two_files)
                 [137, 80, 78, 71] ''png''],
            converse_calls =
              [image_request (stub (service_says ''NONE'') (judge_says ''NONE'') two_files)
                 [137, 80, 78, 71] ''png'']\<rparr>) \<and>
   image_formats
     (image_request (stub (service_says ''NONE'') (judge_says ''NONE'') two_files)
        [137, 80, 78, 71] ''png'') = [''jpeg'']"
proof -
  let ?env = "stub (service_says ''NONE'') (judge_says ''NONE'') two_files"
  let ?blob = "[137, 80, 78, 71] :: bytes"
  let ?st1 = "no_calls\<lparr>guardrail_calls :=
                 guardrail_calls no_calls @ [moderation_image_request ?env ?blob ''png'']\<rparr>"
  let ?st2 = "sent ?st1 (Suc 0) (image_request ?env ?blob ''png'')"
  have on_disk: "files ?env ''chart.png'' = Some (RegularFile ?blob)"
    by (simp add: stub_def service_says_def judge_says_def judge_raises_def two_files_def)
  have size: "length ?blob \<le> MAX_IMAGE_SIZE"
    by (simp add: MAX_IMAGE_SIZE_def)
  have service: "apply_guardrail ?env reqs = Inr \<lparr>action = ''NONE'', outputs = []\<rparr>" for reqs
    by (simp add: stub_def service_says_def judge_says_def judge_raises_def verdict_def)
  have "converse ?env reqs = Inr \<lparr>output_message_content = [TextBlock ''NONE''], stopReason = ''end_turn''\<rparr>"
    for reqs
    by (simp add: stub_def service_says_def judge_says_def judge_raises_def says_def)
  then have judge: "guard_nova_image ?env ?blob ''png'' ?st1 = Some (Inr ''NONE'', ?st2)"
    by (rule guard_nova_image_accepts) simp_all
  have run: "handle_image ?env default_decision ''chart.png'' no_calls =
      Some (Inr default_decision, ?st2)"
    by (simp add: handle_image_checked [OF on_disk image_ext_chart_png size service] judge)
  have "\<forall>q \<in> set (drop (length (converse_calls no_calls)) (converse_calls ?st2)).
          image_formats q = [''jpeg'']"
    using guard_nova_image_sends_jpeg
            [of ?env ?blob "''png''" ?st1 "Inr ''NONE''" ?st2 default_decision "''chart.png''"
                "Inr default_decision" ?st2]
          guard_nova_image_sends_jpeg
            [of ?env ?blob "''png''" no_calls "Inr ''NONE''" ?st2 default_decision "''chart.png''"
                "Inr default_decision" ?st2]
          run judge
    by blast
  then have "image_formats (image_request ?env ?blob ''png'') = [''jpeg'']"
    by (simp add: sent_def no_calls_def)
  moreover have "?st2 = \<lparr>guardrail_calls = [moderation_image_request ?env ?blob ''png''],
      converse_calls = [image_request ?env ?blob ''png'']\<rparr>"
    by (simp add: sent_def no_calls_def)
  ultimately show ?thesis using run by simp
qed

text \<open>
  C10. \<^verbatim>\<open>guard_nova_image\<close> checks no size: for a blob of any length, when the judge
  endpoint answers with a reply that holds no bytes and whose first content block is a
  token, the function returns it after one call. Whenever the function returns or raises,
  at least one call was made and the outcome is what the body of the \<^verbatim>\<open>try\<close> makes
  of the last reply; a \<^verbatim>\<open>ValueError\<close> in particular can only be one that the endpoint
  call itself raised. In \<^verbatim>\<open>handle_image\<close> a file over the cap ends with the
  \<^verbatim>\<open>ValueError\<close> of \<^verbatim>\<open>guard_image\<close> and no judge call, while a file at or
  under the cap that the moderation endpoint answered does reach the judge call: the size
  check of \<^verbatim>\<open>guard_image\<close> is all that keeps an oversized image from the judge.
\<close>

theorem guard_nova_image_no_size_check:
  "(converse env (converse_calls st @ [image_request env blob fmt]) = Inr reply \<and>
    output_message_content reply = TextBlock t # rest \<and>
    \<not> list_ex holds_bytes (output_message_content reply) \<and>
    (t = ''GUARDRAIL_INTERVENED'' \<or> t = ''NONE'') \<longrightarrow>
      guard_nova_image env blob fmt st =
        Some (Inr t, st\<lparr>converse_calls := converse_calls st @ [image_request env blob fmt]\<rparr>)) \<and>
   (guard_nova_image env blob fmt st = Some (r, st') \<longrightarrow>
      (\<exists>n. st' = sent st (Suc n) (image_request env blob fmt) \<and>
           r = nth_reply env (image_request env blob fmt) st (Suc n) \<and>
           (\<forall>a b. r = Inl (ValueError a b) \<longrightarrow>
                  converse env (converse_calls st') = Inl (ValueError a b)))) \<and>
   (files env p = Some (RegularFile blob) \<and> image_ext p = Some ext \<and>
    length blob > MAX_IMAGE_SIZE \<longrightarrow>
      handle_image env d p st = Some (Inl (ValueError (length blob) MAX_IMAGE_SIZE), st)) \<and>
   (files env p = Some (RegularFile blob) \<and> image_ext p = Some ext \<and>
    length blob \<le> MAX_IMAGE_SIZE \<and>
    apply_guardrail env (guardrail_calls st @ [moderation_image_request env blob ext]) = Inr resp \<and>
    handle_image env d p st = Some (r', st'') \<longrightarrow>
      length (converse_calls st'') > length (converse_calls st))"
proof (intro conjI impI)
  assume "converse env (converse_calls st @ [image_request env blob fmt]) = Inr reply \<and>
    output_message_content reply = TextBlock t # rest \<and>
    \<not> list_ex holds_bytes (output_message_content reply) \<and>
    (t = ''GUARDRAIL_INTERVENED'' \<or> t = ''NONE'')"
  then have "guard_nova_image env blob fmt st =
      Some (Inr t, sent st (Suc 0) (image_request env blob fmt))"
    by (intro guard_nova_image_accepts [of env st blob fmt reply t rest]) auto
  then show "guard_nova_image env blob fmt st =
        Some (Inr t, st\<lparr>converse_calls := converse_calls st @ [image_request env blob fmt]\<rparr>)"
    by (simp add: sent_def)
next
  let ?req = "image_request env blob fmt"
  assume "guard_nova_image env blob fmt st = Some (r, st')"
  from guard_nova_image_calls [OF this] obtain n
    where n: "st' = sent st (Suc n) ?req" "nth_reply env ?req st (Suc n) = r"
    by blast
  have "converse env (converse_calls st') = Inl (ValueError a b)" if "r = Inl (ValueError a b)" for a b
  proof -
    from that n have "result_text (converse env (converse_calls st')) = Inl (ValueError a b)"
      by (simp add: nth_reply_def)
    then show ?thesis by (rule result_text_ValueError)
  qed
  with n show "\<exists>n. st' = sent st (Suc n) ?req \<and> r = nth_reply env ?req st (Suc n) \<and>
      (\<forall>a b. r = Inl (ValueError a b) \<longrightarrow> converse env (converse_calls st') = Inl (ValueError a b))"
    by blast
next
  assume "files env p = Some (RegularFile blob) \<and> image_ext p = Some ext \<and>
    length blob > MAX_IMAGE_SIZE"
  then show "handle_image env d p st = Some (Inl (ValueError (length blob) MAX_IMAGE_SIZE), st)"
    by (simp add: handle_image_oversized)
next
  let ?st1 = "st\<lparr>guardrail_calls := guardrail_calls st @ [moderation_image_request env blob ext]\<rparr>"
  assume h: "files env p = Some (RegularFile blob) \<and> image_ext p = Some ext \<and>
    length blob \<le> MAX_IMAGE_SIZE \<and>
    apply_guardrail env (guardrail_calls st @ [moderation_image_request env blob ext]) = Inr resp \<and>
    handle_image env d p st = Some (r', st'')"
  then have "handle_image env d p st =
     (case guard_nova_image env blob ext ?st1 of
        None \<Rightarrow> None
      | Some (Inl e, st2) \<Rightarrow> Some (Inl e, st2)
      | Some (Inr t, st2) \<Rightarrow>
          Some (Inr (if t = ''GUARDRAIL_INTERVENED'' then d(''nova'' \<mapsto> ''GUARDRAIL_INTERVENED'') else d),
                st2))"
    by (intro handle_image_checked) simp_all
  with h obtain r2 where "guard_nova_image env blob ext ?st1 = Some (r2, st'')"
    by (auto split: option.splits sum.splits)
  from guard_nova_image_calls [OF this] obtain n
    where "st'' = sent ?st1 (Suc n) (image_request env blob ext)" by blast
  then show "length (converse_calls st'') > length (converse_calls st)"
    by (simp add: sent_def)
qed

theorem guard_nova_image_no_size_check_witness:
  "guard_nova_image (stub (service_says ''NONE'') (judge_says ''NONE'') big_file)
      (replicate 4194305 0) ''png'' no_calls =
     Some (Inr ''NONE'',
           \<lparr>guardrail_calls = [],
            converse_calls =
              [image_request (stub (service_says ''NONE'') (judge_says ''NONE'') big_file)
                 (replicate 4194305 0) ''png'']\<rparr>) \<and>
   handle_image (stub (service_says ''NONE'') (judge_says ''NONE'') big_file)
      default_decision ''big.png'' no_calls =
     Some (Inl (ValueError 4194305 4194304), no_calls) \<and>
   length (converse_calls (snd (the
     (handle_image (stub (service_says ''NONE'') (judge_says ''NONE'') two_files)
        default_decision ''chart.png'' no_calls)))) = 1"
proof -
  let ?big = "stub (service_says ''NONE'') (judge_says ''NONE'') big_file"
  let ?env = "stub (service_says ''NONE'') (judge_says ''NONE'') two_files"
  let ?huge = "replicate 4194305 0 :: bytes"
  let ?blob = "[137, 80, 78, 71] :: bytes"
  let ?reply = "\<lparr>output_message_content = [TextBlock ''NONE''], stopReason = ''end_turn''\<rparr>"
  let ?st1 = "no_calls\<lparr>guardrail_calls :=
                 guardrail_calls no_calls @ [moderation_image_request ?env ?blob ''png'']\<rparr>"
  let ?st2 = "sent ?st1 (Suc 0) (image_request ?env ?blob ''png'')"
  note oversized = guard_nova_image_no_size_check
      [of ?big no_calls ?huge "''png''" ?reply "''NONE''" "[]" "Inr ''NONE''" no_calls
          "''big.png''" "''png''" default_decision]
  note small = guard_nova_image_no_size_check
      [of ?env no_calls ?blob "''png''" ?reply "''NONE''" "[]" "Inr ''NONE''" no_calls
          "''chart.png''" "''png''" default_decision "\<lparr>action = ''NONE'', outputs = []\<rparr>"
          "Inr default_decision" ?st2]
  have "converse ?big (converse_calls no_calls @ [image_request ?big ?huge ''png'']) = Inr ?reply \<and>
      output_message_content ?reply = TextBlock ''NONE'' # [] \<and>
      \<not> list_ex holds_bytes (output_message_content ?reply) \<and>
      (''NONE'' = ''GUARDRAIL_INTERVENED'' \<or> ''NONE'' = ''NONE'')"
    by (simp add: stub_def service_says_def judge_says_def judge_raises_def says_def)
  from oversized [THEN conjunct1, THEN mp, OF this]
  have a: "guard_nova_image ?big ?huge ''png'' no_calls =
     Some (Inr ''NONE'',
           \<lparr>guardrail_calls = [], converse_calls = [image_request ?big ?huge ''png'']\<rparr>)"
    by (simp add: no_calls_def)
  have "files ?big ''big.png'' = Some (RegularFile ?huge) \<and> image_ext ''big.png'' = Some ''png'' \<and>
      length ?huge > MAX_IMAGE_SIZE"
    by (simp add: stub_def service_says_def judge_says_def judge_raises_def big_file_def image_ext_big_png MAX_IMAGE_SIZE_def)
  from oversized [THEN conjunct2, THEN conjunct2, THEN conjunct1, THEN mp, OF this]
  have b: "handle_image ?big default_decision ''big.png'' no_calls =
     Some (Inl (ValueError 4194305 4194304), no_calls)"
    by (simp add: MAX_IMAGE_SIZE_def)
  have on_disk: "files ?env ''chart.png'' = Some (RegularFile ?blob)"
    by (simp add: stub_def service_says_def judge_says_def judge_raises_def two_files_def)
  have size: "length ?blob \<le> MAX_IMAGE_SIZE"
    by (simp add: MAX_IMAGE_SIZE_def)
  have service: "apply_guardrail ?env reqs = Inr \<lparr>action = ''NONE'', outputs = []\<rparr>" for reqs
    by (simp add: stub_def service_says_def judge_says_def judge_raises_def verdict_def)
  have "converse ?env reqs = Inr ?reply" for reqs
    by (simp add: stub_def service_says_def judge_says_def judge_raises_def says_def)
  then have judge: "guard_nova_image ?env ?blob ''png'' ?st1 = Some (Inr ''NONE'', ?st2)"
    by (rule guard_nova_image_accepts) simp_all
  have run: "handle_image ?env default_decision ''chart.png'' no_calls =
      Some (Inr default_decision, ?st2)"
    by (simp add: handle_image_checked [OF on_disk image_ext_chart_png size service] judge)
  have "files ?env ''chart.png'' = Some (RegularFile ?blob) \<and> image_ext ''chart.png'' = Some ''png'' \<and>
    length ?blob \<le> MAX_IMAGE_SIZE \<and>
    apply_guardrail ?env (guardrail_calls no_calls @ [moderation_image_request ?env ?blob ''png'']) =
      Inr \<lparr>action = ''NONE'', outputs = []\<rparr> \<and>
    handle_image ?env default_decision ''chart.png'' no_calls = Some (Inr default_decision, ?st2)"
    using on_disk image_ext_chart_png size service run by (intro conjI)
  from small [THEN conjunct2, THEN conjunct2, THEN conjunct2, THEN mp, OF this]
  have "length (converse_calls ?st2) > length (converse_calls no_calls)" .
  have c: "length (converse_calls (snd (the
     (handle_image ?env default_decision ''chart.png'' no_calls)))) = 1"
    unfolding run by (simp add: sent_def no_calls_def)
  from a b c show ?thesis by (intro conjI)
qed

end
